theory Spec2Isabelle
  imports Complex_Main "HOL-Library.Multiset"
begin

section \<open>Shared conventions\<close>

text \<open>
  Python floats are modelled as \<^typ>\<open>real\<close> (no rounding error, no NaN); Python's
  unbounded integers as \<^typ>\<open>int\<close>. The sentence encoder
  (\<^verbatim>\<open>self.model.encode\<close>) is a parameter \<open>encode\<close> of every operation that
  embeds text; encoding a batch of texts is taken to be the encoding of each text.
  The wall clock (\<^verbatim>\<open>time.time()\<close>) is a parameter \<open>now\<close>.
  Every exception the modelled code can raise is a value of \<open>error\<close>.
\<close>

datatype error = IndexError | KeyError | ZeroDivisionError | FileNotFoundError | ValueError

type_synonym vector = "real list"

section \<open>memory/short\_term.py: ConversationBuffer\<close>

record message =
  role :: string
  content :: string

text \<open>
  \<^verbatim>\<open>collections.deque(maxlen=n)\<close>: \<^verbatim>\<open>append\<close> adds on the right and, when the
  deque is then longer than \<open>maxlen\<close>, drops one item on the left.
\<close>

record conversation_buffer =
  maxlen :: nat
  buffer :: "message list"

definition deque_append :: "nat \<Rightarrow> 'a list \<Rightarrow> 'a \<Rightarrow> 'a list" where
  "deque_append n xs x = (let ys = xs @ [x] in if length ys > n then tl ys else ys)"

text \<open>\<^verbatim>\<open>ConversationBuffer.__init__\<close>: \<^verbatim>\<open>deque(maxlen=max_turns)\<close> raises
  ValueError on a negative \<open>maxlen\<close>.\<close>

definition ConversationBuffer :: "int \<Rightarrow> error + conversation_buffer" where
  "ConversationBuffer max_turns =
     (if max_turns < 0 then Inl ValueError
      else Inr \<lparr>maxlen = nat max_turns, buffer = []\<rparr>)"

definition add_interaction :: "string \<Rightarrow> string \<Rightarrow> conversation_buffer \<Rightarrow> conversation_buffer" where
  "add_interaction user_text assistant_text b =
     (let b1 = b\<lparr>buffer := deque_append (maxlen b) (buffer b)
                   \<lparr>role = ''user'', content = user_text\<rparr>\<rparr>
      in b1\<lparr>buffer := deque_append (maxlen b1) (buffer b1)
                   \<lparr>role = ''assistant'', content = assistant_text\<rparr>\<rparr>)"

definition get_history :: "conversation_buffer \<Rightarrow> message list" where
  "get_history b = buffer b"

text \<open>A sequence of \<^verbatim>\<open>add_interaction\<close> calls, oldest first.\<close>

fun add_interactions :: "(string \<times> string) list \<Rightarrow> conversation_buffer \<Rightarrow> conversation_buffer" where
  "add_interactions [] b = b"
| "add_interactions ((u, a) # rest) b = add_interactions rest (add_interaction u a b)"

text \<open>The messages of a list of exchanges, in order: each exchange is its user message
  followed by its assistant message.\<close>

definition exchange_messages :: "(string \<times> string) list \<Rightarrow> message list" where
  "exchange_messages xs =
     concat (map (\<lambda>(u, a). [\<lparr>role = ''user'', content = u\<rparr>,
                              \<lparr>role = ''assistant'', content = a\<rparr>]) xs)"

section \<open>memory/vector\_db.py: VectorDBManager\<close>

text \<open>
  A metadata record is the dict \<^verbatim>\<open>{"text", "timestamp", "importance", "type"}\<close>.
  \<^verbatim>\<open>"timestamp"\<close> may be absent (static records), \<^verbatim>\<open>"importance"\<close> is read
  with \<^verbatim>\<open>.get("importance", 0.5)\<close>, \<^verbatim>\<open>"type"\<close> is only written.
\<close>

record memory_obj =
  m_text :: string
  m_timestamp :: "real option"
  m_importance :: "real option"
  m_type :: "string option"

text \<open>A domain: the FAISS \<^verbatim>\<open>IndexFlatL2\<close> (the vectors in insertion order) and the
  parallel metadata list.\<close>

record domain_db =
  db_index :: "vector list"
  db_data :: "memory_obj list"

text \<open>The manager: the in-memory \<^verbatim>\<open>self.databases\<close> dict and the two files of each
  domain under \<^verbatim>\<open>index_dir\<close>, keyed by domain name. A file that exists is taken
  to parse; its content is the index, respectively the \<^verbatim>\<open>"data"\<close> list.\<close>

record vector_db_manager =
  databases :: "string \<rightharpoonup> domain_db"
  index_files :: "string \<rightharpoonup> vector list"
  meta_files :: "string \<rightharpoonup> memory_obj list"

text \<open>
  \<^verbatim>\<open>IndexFlatL2.search(q, k)\<close>: the \<open>k\<close> stored vectors nearest to \<open>q\<close> by
  squared Euclidean distance, nearest first, as pairs (distance, position). Vectors at
  equal distance are taken in insertion order. With \<open>k\<close> at most the number of stored
  vectors, as at both call sites, FAISS pads nothing, so no position is \<open>-1\<close> here; the
  callers' tests against \<open>-1\<close> are kept as the source has them.
\<close>

definition l2_sqr :: "vector \<Rightarrow> vector \<Rightarrow> real" where
  "l2_sqr x y = sum_list (map (\<lambda>(a, b). (a - b)\<^sup>2) (zip x y))"

definition flat_l2_search :: "vector list \<Rightarrow> vector \<Rightarrow> nat \<Rightarrow> (real \<times> int) list" where
  "flat_l2_search ix q k =
     take k (sort_key fst (zip (map (l2_sqr q) ix) (map int [0..<length ix])))"

definition init_empty_domain :: "string \<Rightarrow> vector_db_manager \<Rightarrow> vector_db_manager" where
  "init_empty_domain domain_name s =
     (case (index_files s domain_name, meta_files s domain_name) of
        (Some ix, Some md) \<Rightarrow>
          s\<lparr>databases := (databases s)(domain_name \<mapsto> \<lparr>db_index = ix, db_data = md\<rparr>)\<rparr>
      | _ \<Rightarrow>
          s\<lparr>databases := (databases s)(domain_name \<mapsto> \<lparr>db_index = [], db_data = []\<rparr>),
            index_files := (index_files s)(domain_name \<mapsto> []),
            meta_files := (meta_files s)(domain_name \<mapsto> [])\<rparr>)"

definition save_domain :: "string \<Rightarrow> vector_db_manager \<Rightarrow> error + vector_db_manager" where
  "save_domain domain_name s =
     (case databases s domain_name of
        None \<Rightarrow> Inl KeyError
      | Some db \<Rightarrow>
          Inr (s\<lparr>index_files := (index_files s)(domain_name \<mapsto> db_index db),
                 meta_files := (meta_files s)(domain_name \<mapsto> db_data db)\<rparr>))"

text \<open>Python's \<^verbatim>\<open>xs[i]\<close>: a negative index counts from the end; out of range is
  IndexError. The result is the position read.\<close>

definition py_index :: "nat \<Rightarrow> int \<Rightarrow> error + nat" where
  "py_index n i =
     (let j = (if i < 0 then int n + i else i)
      in if 0 \<le> j \<and> j < int n then Inr (nat j) else Inl IndexError)"

text \<open>The deduplication test of \<^verbatim>\<open>add_memory\<close>: the position of the nearest stored
  vector when the index is non-empty, that position is not \<open>-1\<close> and its distance is
  below 1.0.\<close>

definition dedup_match :: "domain_db \<Rightarrow> vector \<Rightarrow> int option" where
  "dedup_match db embedding =
     (if length (db_index db) > 0 then
        (case flat_l2_search (db_index db) embedding 1 of
           (d, i) # _ \<Rightarrow> if i \<noteq> -1 \<and> d < 1.0 then Some i else None
         | [] \<Rightarrow> None)
      else None)"

definition add_memory ::
  "(string \<Rightarrow> vector) \<Rightarrow> real \<Rightarrow> string \<Rightarrow> string \<Rightarrow> real \<Rightarrow> string \<Rightarrow>
     vector_db_manager \<Rightarrow> error + vector_db_manager" where
  "add_memory encode now domain_name txt imp mem_type s0 =
     (let s = (if databases s0 domain_name = None then init_empty_domain domain_name s0 else s0)
      in case databases s domain_name of
           None \<Rightarrow> Inl KeyError
         | Some db \<Rightarrow>
             (let embedding = encode txt;
                  memory = \<lparr>m_text = txt, m_timestamp = Some now,
                            m_importance = Some imp, m_type = Some mem_type\<rparr>
              in case dedup_match db embedding of
                   Some match_idx \<Rightarrow>
                     (case py_index (length (db_data db)) match_idx of
                        Inl e \<Rightarrow> Inl e
                      | Inr j \<Rightarrow>
                          (let data' = (db_data db)[j := memory];
                               new_index = map encode (map m_text data')
                           in save_domain domain_name
                                (s\<lparr>databases := (databases s)(domain_name \<mapsto>
                                      \<lparr>db_index = new_index, db_data = data'\<rparr>)\<rparr>)))
                 | None \<Rightarrow>
                     save_domain domain_name
                       (s\<lparr>databases := (databases s)(domain_name \<mapsto>
                             \<lparr>db_index = db_index db @ [embedding],
                              db_data = db_data db @ [memory]\<rparr>)\<rparr>)))"

text \<open>The body of the scoring loop of \<^verbatim>\<open>search_with_decay\<close> for one hit:
  \<open>None\<close> is \<^verbatim>\<open>continue\<close>.\<close>

definition base_similarity :: "real \<Rightarrow> real" where
  "base_similarity d = 1.0 / (1.0 + d)"

definition score_hit ::
  "real \<Rightarrow> memory_obj list \<Rightarrow> real \<times> int \<Rightarrow> error + (real \<times> memory_obj) option" where
  "score_hit current_time dat hit =
     (case hit of (d, idx) \<Rightarrow>
        if idx = -1 then Inr None
        else
          (case py_index (length dat) idx of
             Inl e \<Rightarrow> Inl e
           | Inr j \<Rightarrow>
               (let memory_obj = dat ! j;
                    s = base_similarity d
                in if s < 0.40 then Inr None
                   else
                     (case m_timestamp memory_obj of
                        None \<Rightarrow> Inr (Some (s, memory_obj))
                      | Some ts \<Rightarrow>
                          (let age_in_seconds = current_time - ts;
                               age_in_days = age_in_seconds / 86400.0;
                               imp = (case m_importance memory_obj of
                                        None \<Rightarrow> 0.5 | Some v \<Rightarrow> v)
                           in if 1.0 + age_in_days = 0 then Inl ZeroDivisionError
                              else
                                (let recency_weight = s * (1.0 / (1.0 + age_in_days));
                                     final_score = s + (imp * 0.5) + recency_weight
                                 in Inr (Some (final_score, memory_obj))))))))"

fun score_hits ::
  "real \<Rightarrow> memory_obj list \<Rightarrow> (real \<times> int) list \<Rightarrow> (real \<times> memory_obj) list \<Rightarrow>
     error + (real \<times> memory_obj) list" where
  "score_hits current_time dat [] scored_results = Inr scored_results"
| "score_hits current_time dat (hit # hits) scored_results =
     (case score_hit current_time dat hit of
        Inl e \<Rightarrow> Inl e
      | Inr None \<Rightarrow> score_hits current_time dat hits scored_results
      | Inr (Some r) \<Rightarrow> score_hits current_time dat hits (scored_results @ [r]))"

text \<open>\<^verbatim>\<open>xs.sort(key=..., reverse=True)\<close> is stable: items with equal keys keep their
  order. A stable ascending sort on the negated key is that order.\<close>

definition sort_desc :: "('a \<Rightarrow> real) \<Rightarrow> 'a list \<Rightarrow> 'a list" where
  "sort_desc key xs = sort_key (\<lambda>x. - key x) xs"

text \<open>The slice \<^verbatim>\<open>xs[:k]\<close> for a Python integer \<open>k\<close>: a negative \<open>k\<close> counts from
  the end.\<close>

definition slice_to :: "int \<Rightarrow> 'a list \<Rightarrow> 'a list" where
  "slice_to k xs = (if 0 \<le> k then take (nat k) xs else take (length xs - nat (- k)) xs)"

definition search_with_decay ::
  "(string \<Rightarrow> vector) \<Rightarrow> real \<Rightarrow> vector_db_manager \<Rightarrow> string \<Rightarrow> string \<Rightarrow> int \<Rightarrow>
     error + memory_obj list" where
  "search_with_decay encode now s domain_name query top_k =
     (case databases s domain_name of
        None \<Rightarrow> Inr []
      | Some db \<Rightarrow>
          if length (db_index db) = 0 then Inr []
          else
            (let fetch_k = min 10 (length (db_index db));
                 query_emb = encode query;
                 hits = flat_l2_search (db_index db) query_emb fetch_k
             in case score_hits now (db_data db) hits [] of
                  Inl e \<Rightarrow> Inl e
                | Inr scored_results \<Rightarrow>
                    Inr (map snd (slice_to top_k (sort_desc fst scored_results)))))"

section \<open>memory/quote\_db.py: QuoteDBManager\<close>

record quote =
  q_text :: string
  q_character :: string
  q_source :: string
  q_emotion :: "string option"
  q_usecase :: "string option"
  q_type :: "string option"

record quote_db_manager =
  quotes :: "quote list"
  q_index :: "vector list option"
  emotion_vecs :: "string \<rightharpoonup> vector"

definition W_SEMANTIC :: real where "W_SEMANTIC = 0.70"
definition W_EMOTION :: real where "W_EMOTION = 0.30"

definition dot :: "vector \<Rightarrow> vector \<Rightarrow> real" where
  "dot x y = sum_list (map (\<lambda>(a, b). a * b) (zip x y))"

text \<open>\<^verbatim>\<open>faiss.normalize_L2\<close> and the division by \<^verbatim>\<open>np.linalg.norm\<close> in
  \<^verbatim>\<open>_build_emotion_cache\<close> (which replaces a zero norm by 1): a vector of norm 0
  stays as it is.\<close>

definition normalize_L2 :: "vector \<Rightarrow> vector" where
  "normalize_L2 x =
     (let n = sqrt (sum_list (map (\<lambda>a. a\<^sup>2) x))
      in if n = 0 then x else map (\<lambda>a. a / n) x)"

text \<open>\<^verbatim>\<open>IndexFlatIP.search(q, k)\<close>: the \<open>k\<close> stored vectors of largest inner product
  with \<open>q\<close>, largest first, as pairs (inner product, position); equal products in
  insertion order. A \<open>k\<close> that is not positive is taken to give no hit.\<close>

definition flat_ip_search :: "vector list \<Rightarrow> vector \<Rightarrow> int \<Rightarrow> (real \<times> int) list" where
  "flat_ip_search ix q k =
     take (nat k) (sort_desc fst (zip (map (dot q) ix) (map int [0..<length ix])))"

definition emotion_label :: "quote \<Rightarrow> string" where
  "emotion_label q = (case q_emotion q of None \<Rightarrow> ''general'' | Some e \<Rightarrow> e)"

definition compound_doc :: "quote \<Rightarrow> string" where
  "compound_doc q =
     (let base_usecase = (case q_usecase q of None \<Rightarrow> [] | Some u \<Rightarrow> u);
          base_usecase = (if base_usecase = [] then
                            ''Situation: User needs a quote about '' @ emotion_label q @ ''.''
                          else base_usecase)
      in ''Quote: '' @ q_text q @ ''. '' @ base_usecase)"

definition build_emotion_cache :: "(string \<Rightarrow> vector) \<Rightarrow> quote list \<Rightarrow> (string \<rightharpoonup> vector)" where
  "build_emotion_cache encode qs =
     (let emotions = remdups (map emotion_label qs)
      in map_of (zip emotions (map (\<lambda>e. normalize_L2 (encode e)) emotions)))"

text \<open>\<^verbatim>\<open>_load_or_build\<close>, on the content of the corpus file and of the index file
  (\<open>None\<close>: the file does not exist). The result is the manager and the index file
  after the call.\<close>

definition load_or_build ::
  "(string \<Rightarrow> vector) \<Rightarrow> quote list option \<Rightarrow> vector list option \<Rightarrow>
     error + (quote_db_manager \<times> vector list option)" where
  "load_or_build encode json_file index_file =
     (case json_file of
        None \<Rightarrow> Inl FileNotFoundError
      | Some qs \<Rightarrow>
          (let ix = (case index_file of
                       Some ix \<Rightarrow> ix
                     | None \<Rightarrow> map (\<lambda>q. normalize_L2 (encode (compound_doc q))) qs)
           in Inr (\<lparr>quotes = qs, q_index = Some ix,
                     emotion_vecs = build_emotion_cache encode qs\<rparr>, Some ix)))"

text \<open>\<^verbatim>\<open>QuoteDBManager.__init__\<close> sets the fields and calls \<^verbatim>\<open>_load_or_build\<close>.\<close>

definition QuoteDBManager ::
  "(string \<Rightarrow> vector) \<Rightarrow> quote list option \<Rightarrow> vector list option \<Rightarrow>
     error + (quote_db_manager \<times> vector list option)" where
  "QuoteDBManager encode json_file index_file = load_or_build encode json_file index_file"

definition emotion_sim :: "quote_db_manager \<Rightarrow> vector \<Rightarrow> string \<Rightarrow> real" where
  "emotion_sim qm query_unit_vec label =
     (case emotion_vecs qm label of
        None \<Rightarrow> 0.0
      | Some emotion_vec \<Rightarrow> dot query_unit_vec emotion_vec)"

text \<open>\<^verbatim>\<open>float(f"{x:.3f}")\<close>: \<open>x\<close> rounded to three decimals, a tie going to the even
  neighbour.\<close>

definition round_half_even :: "real \<Rightarrow> int" where
  "round_half_even x =
     (let f = \<lfloor>x\<rfloor>; r = x - of_int f
      in if r < 1 / 2 then f else if 1 / 2 < r then f + 1 else if even f then f else f + 1)"

definition round3 :: "real \<Rightarrow> real" where
  "round3 x = of_int (round_half_even (x * 1000)) / 1000"

record quote_result =
  r_index :: int
  r_semantic_sim :: real
  r_emotion_sim :: real
  r_type_weight :: real
  r_composite :: real
  r_metadata :: quote

text \<open>The two signals and the composite of the loop body, as computed before the
  result dict rounds them.\<close>

definition semantic_signal :: "real \<Rightarrow> real" where
  "semantic_signal cosine_sim = max 0.0 cosine_sim"

definition emotion_signal :: "quote_db_manager \<Rightarrow> vector \<Rightarrow> quote \<Rightarrow> real" where
  "emotion_signal qm query_unit quote_data =
     max 0.0 (emotion_sim qm query_unit (emotion_label quote_data))"

definition composite_score :: "real \<Rightarrow> real \<Rightarrow> real" where
  "composite_score sem emo = W_SEMANTIC * sem + W_EMOTION * emo"

definition quote_hit ::
  "quote_db_manager \<Rightarrow> vector \<Rightarrow> int list \<Rightarrow> real \<times> int \<Rightarrow> error + quote_result option" where
  "quote_hit qm query_unit used_indices hit =
     (case hit of (cosine_sim, idx) \<Rightarrow>
        if idx = -1 \<or> idx \<in> set used_indices then Inr None
        else
          (case py_index (length (quotes qm)) idx of
             Inl e \<Rightarrow> Inl e
           | Inr j \<Rightarrow>
               (let quote_data = quotes qm ! j;
                    sem = semantic_signal cosine_sim;
                    emo = emotion_signal qm query_unit quote_data;
                    composite = composite_score sem emo
                in Inr (Some \<lparr>r_index = idx,
                               r_semantic_sim = round3 sem,
                               r_emotion_sim = round3 emo,
                               r_type_weight = 1.0,
                               r_composite = round3 composite,
                               r_metadata = quote_data\<rparr>))))"

fun quote_hits ::
  "quote_db_manager \<Rightarrow> vector \<Rightarrow> int list \<Rightarrow> (real \<times> int) list \<Rightarrow> quote_result list \<Rightarrow>
     error + quote_result list" where
  "quote_hits qm query_unit used_indices [] results = Inr results"
| "quote_hits qm query_unit used_indices (hit # hits) results =
     (case quote_hit qm query_unit used_indices hit of
        Inl e \<Rightarrow> Inl e
      | Inr None \<Rightarrow> quote_hits qm query_unit used_indices hits results
      | Inr (Some r) \<Rightarrow> quote_hits qm query_unit used_indices hits (results @ [r]))"

definition search_quote ::
  "(string \<Rightarrow> vector) \<Rightarrow> quote_db_manager \<Rightarrow> string \<Rightarrow> int \<Rightarrow> int list \<Rightarrow>
     error + quote_result list" where
  "search_quote encode qm query top_k used_indices =
     (case q_index qm of
        None \<Rightarrow> Inr []
      | Some idx_obj \<Rightarrow>
          (let raw_vec = normalize_L2 (encode query);
               query_unit = raw_vec;
               fetch_k = min (top_k * 4) (int (length idx_obj));
               hits = flat_ip_search idx_obj raw_vec fetch_k
           in case quote_hits qm query_unit used_indices hits [] of
                Inl e \<Rightarrow> Inl e
              | Inr results \<Rightarrow>
                  (let results = sort_desc r_composite results
                   in Inr (take (nat (min top_k (int (length results)))) results))))"

section \<open>agents/cinematic\_pipeline.py: the retrieve\_quote node\<close>

text \<open>\<^verbatim>\<open>str.lower\<close> and \<^verbatim>\<open>str.split()\<close> on ASCII text: the whitespace characters
  are tab, line feed, vertical tab, form feed, carriage return, the four separators
  \<open>0x1C\<close> to \<open>0x1F\<close> and the space.\<close>

definition is_space :: "char \<Rightarrow> bool" where
  "is_space c = (let n = (of_char c :: nat) in (9 \<le> n \<and> n \<le> 13) \<or> (28 \<le> n \<and> n \<le> 32))"

definition char_lower :: "char \<Rightarrow> char" where
  "char_lower c =
     (case map_of (zip ''ABCDEFGHIJKLMNOPQRSTUVWXYZ'' ''abcdefghijklmnopqrstuvwxyz'') c of
        Some l \<Rightarrow> l
      | None \<Rightarrow> c)"

definition str_lower :: "string \<Rightarrow> string" where
  "str_lower s = map char_lower s"

fun split_from :: "string \<Rightarrow> string \<Rightarrow> string list" where
  "split_from [] w = (if w = [] then [] else [w])"
| "split_from (c # cs) w =
     (if is_space c then (if w = [] then split_from cs [] else w # split_from cs [])
      else split_from cs (w @ [c]))"

definition str_split :: "string \<Rightarrow> string list" where
  "str_split s = split_from s []"

definition MIN_SCORE :: real where "MIN_SCORE = 0.25"

text \<open>\<^verbatim>\<open>_node_retrieve_quote\<close>, on the recently-used list \<^verbatim>\<open>self._used_indices\<close>:
  the result is \<^verbatim>\<open>selected_quote\<close> and the list after the call.\<close>

definition node_retrieve_quote ::
  "(string \<Rightarrow> vector) \<Rightarrow> quote_db_manager \<Rightarrow> int list \<Rightarrow> string \<Rightarrow>
     error + (quote_result option \<times> int list)" where
  "node_retrieve_quote encode qm used_indices user_query =
     (let query = str_lower user_query;
          words = str_split query
      in if length words < 4 then Inr (None, used_indices)
         else
           (case search_quote encode qm user_query 3 used_indices of
              Inl e \<Rightarrow> Inl e
            | Inr [] \<Rightarrow> Inr (None, used_indices)
            | Inr (best # _) \<Rightarrow>
                if r_composite best < MIN_SCORE then Inr (None, used_indices)
                else
                  (let used1 = used_indices @ [r_index best];
                       used2 = (if length used1 > 5 then tl used1 else used1)
                   in Inr (Some best, used2))))"

text \<open>The node run on the queries of one conversation, in order, threading the
  recently-used list; an exception ends the run.\<close>

fun retrieve_quotes ::
  "(string \<Rightarrow> vector) \<Rightarrow> quote_db_manager \<Rightarrow> int list \<Rightarrow> string list \<Rightarrow>
     error + (quote_result option list \<times> int list)" where
  "retrieve_quotes encode qm used_indices [] = Inr ([], used_indices)"
| "retrieve_quotes encode qm used_indices (q # qs) =
     (case node_retrieve_quote encode qm used_indices q of
        Inl e \<Rightarrow> Inl e
      | Inr (sel, used') \<Rightarrow>
          (case retrieve_quotes encode qm used' qs of
             Inl e \<Rightarrow> Inl e
           | Inr (sels, used'') \<Rightarrow> Inr (sel # sels, used'')))"

text \<open>The positions of the accepted quotes of a run, in order.\<close>

definition accepted_positions :: "quote_result option list \<Rightarrow> int list" where
  "accepted_positions sels = map r_index (List.map_filter id sels)"

section \<open>Specification-side definitions\<close>

text \<open>The messages of the most recent \<open>n\<close> exchanges, as the docstring of
  \<^verbatim>\<open>ConversationBuffer\<close> describes the window.\<close>

definition recent_exchanges :: "nat \<Rightarrow> (string \<times> string) list \<Rightarrow> message list" where
  "recent_exchanges n xs = exchange_messages (drop (length xs - n) xs)"

text \<open>The DomainStore invariant: the index holds, position by position, the embedding
  of each metadata record's text (so both have the same length).\<close>

definition store_inv :: "(string \<Rightarrow> vector) \<Rightarrow> domain_db \<Rightarrow> bool" where
  "store_inv encode db = (db_index db = map encode (map m_text (db_data db)))"

text \<open>The weaker, structural part of it: as many index entries as metadata records.\<close>

definition counts_agree :: "domain_db \<Rightarrow> bool" where
  "counts_agree db = (length (db_index db) = length (db_data db))"

text \<open>A domain satisfies a property of stores when its loaded store does, or, while it
  is not loaded, the store its two files would load does (when a file is missing the
  domain starts empty).\<close>

definition domain_satisfies ::
  "(domain_db \<Rightarrow> bool) \<Rightarrow> vector_db_manager \<Rightarrow> string \<Rightarrow> bool" where
  "domain_satisfies P s domain_name =
     (case databases s domain_name of
        Some db \<Rightarrow> P db
      | None \<Rightarrow>
          (case (index_files s domain_name, meta_files s domain_name) of
             (Some ix, Some md) \<Rightarrow> P \<lparr>db_index = ix, db_data = md\<rparr>
           | _ \<Rightarrow> True))"

text \<open>A sequence of \<^verbatim>\<open>add_memory\<close> calls on one domain, each with its clock reading,
  text, importance and type; an exception ends the sequence.\<close>

fun add_memories ::
  "(string \<Rightarrow> vector) \<Rightarrow> string \<Rightarrow> (real \<times> string \<times> real \<times> string) list \<Rightarrow>
     vector_db_manager \<Rightarrow> error + vector_db_manager" where
  "add_memories encode domain_name [] s = Inr s"
| "add_memories encode domain_name ((now, txt, imp, mem_type) # calls) s =
     (case add_memory encode now domain_name txt imp mem_type s of
        Inl e \<Rightarrow> Inl e
      | Inr s' \<Rightarrow> add_memories encode domain_name calls s')"

text \<open>The scoring of \<^verbatim>\<open>search_with_decay\<close> as the specification words it: the final
  score of a record of base similarity \<open>s\<close>, and the scored survivors of a list of hits.\<close>

definition spec_final_score :: "real \<Rightarrow> real \<Rightarrow> memory_obj \<Rightarrow> real" where
  "spec_final_score now s m =
     (case m_timestamp m of
        None \<Rightarrow> s
      | Some ts \<Rightarrow>
          s + (case m_importance m of None \<Rightarrow> 0.5 | Some v \<Rightarrow> v) * 0.5
            + s * (1 / (1 + (now - ts) / 86400)))"

definition spec_scored ::
  "real \<Rightarrow> memory_obj list \<Rightarrow> (real \<times> int) list \<Rightarrow> (real \<times> memory_obj) list" where
  "spec_scored now dat hits =
     map (\<lambda>(d, i). (spec_final_score now (1 / (1 + d)) (dat ! nat i), dat ! nat i))
       (filter (\<lambda>(d, i). 0.40 \<le> 1 / (1 + d)) hits)"

section \<open>Concrete inputs\<close>

text \<open>A one-dimensional encoder (the length of the text) and small stores, on which the
  theorems below are instantiated.\<close>

definition example_encode :: "string \<Rightarrow> vector" where
  "example_encode t = [real (length t)]"

definition example_memory :: memory_obj where
  "example_memory =
     \<lparr>m_text = ''dark'', m_timestamp = Some 10, m_importance = Some 0.5,
      m_type = Some ''preferences''\<rparr>"

definition example_manager :: vector_db_manager where
  "example_manager =
     \<lparr>databases = [''preferences'' \<mapsto> \<lparr>db_index = [[4]], db_data = [example_memory]\<rparr>],
      index_files = Map.empty, meta_files = Map.empty\<rparr>"

definition fresh_manager :: vector_db_manager where
  "fresh_manager = \<lparr>databases = Map.empty, index_files = Map.empty, meta_files = Map.empty\<rparr>"

text \<open>A store of two dynamic records at the same place, stamped two days and one day
  before the clock reading 172800, and a static record far away.\<close>

definition old_memory :: memory_obj where
  "old_memory = \<lparr>m_text = ''dark'', m_timestamp = Some 0, m_importance = Some 0.5,
                  m_type = Some ''preferences''\<rparr>"

definition recent_memory :: memory_obj where
  "recent_memory = \<lparr>m_text = ''dusk'', m_timestamp = Some 86400, m_importance = Some 0.5,
                     m_type = Some ''preferences''\<rparr>"

definition static_memory :: memory_obj where
  "static_memory = \<lparr>m_text = ''sunlight!'', m_timestamp = None, m_importance = None,
                     m_type = None\<rparr>"

definition decay_manager :: vector_db_manager where
  "decay_manager =
     \<lparr>databases = [''preferences'' \<mapsto>
         \<lparr>db_index = [[4], [4], [9]], db_data = [old_memory, recent_memory, static_memory]\<rparr>],
      index_files = Map.empty, meta_files = Map.empty\<rparr>"

text \<open>An encoder into unit vectors of the plane and a corpus of two quotes whose
  compound documents have the same embedding.\<close>

definition unit_encode :: "string \<Rightarrow> vector" where
  "unit_encode t =
     (if t = ''hope'' then [20 / 29, 21 / 29]
      else if t = ''courage'' then [33 / 65, 56 / 65]
      else if t = ''i need some hope today'' then [3 / 5, 4 / 5]
      else [1, 0])"

definition quote_a :: quote where
  "quote_a = \<lparr>q_text = ''Hope is a good thing'', q_character = ''Andy'',
               q_source = ''Shawshank'', q_emotion = Some ''hope'', q_usecase = None,
               q_type = Some ''quote''\<rparr>"

definition quote_b :: quote where
  "quote_b = \<lparr>q_text = ''I am the one who knocks'', q_character = ''Walter'',
               q_source = ''Breaking Bad'', q_emotion = Some ''courage'', q_usecase = None,
               q_type = Some ''quote''\<rparr>"

definition example_quote_manager :: quote_db_manager where
  "example_quote_manager =
     \<lparr>quotes = [quote_a, quote_b],
      q_index = Some (map (\<lambda>q. normalize_L2 (unit_encode (compound_doc q))) [quote_a, quote_b]),
      emotion_vecs = build_emotion_cache unit_encode [quote_a, quote_b]\<rparr>"

section \<open>Properties\<close>

lemma length_deque_append: "length xs \<le> n \<Longrightarrow> length (deque_append n xs x) \<le> n"
  by (cases xs) (auto simp: deque_append_def Let_def)

subsection \<open>ConversationBuffer: the deque keeps the last \<open>maxlen\<close> messages\<close>

lemma deque_append_last:
  "deque_append n (drop (length zs - n) zs) x = drop (Suc (length zs) - n) (zs @ [x])"
proof (cases "length zs < n")
  case True
  then show ?thesis by (simp add: deque_append_def Let_def)
next
  case False
  then have n: "n \<le> length zs" by simp
  show ?thesis
  proof (cases "n = 0")
    case True
    then show ?thesis by (simp add: deque_append_def Let_def)
  next
    case False
    with n have "drop (length zs - n) zs \<noteq> []" by simp
    then have "tl (drop (length zs - n) zs @ [x]) = drop (Suc (length zs - n)) zs @ [x]"
      by (simp add: tl_drop drop_Suc)
    with n False show ?thesis by (simp add: deque_append_def Let_def Suc_diff_le)
  qed
qed

lemma add_interaction_last:
  assumes "buffer b = drop (length zs - maxlen b) zs"
  shows "buffer (add_interaction u a b) =
           drop (length (zs @ [\<lparr>role = ''user'', content = u\<rparr>,
                               \<lparr>role = ''assistant'', content = a\<rparr>]) - maxlen b)
             (zs @ [\<lparr>role = ''user'', content = u\<rparr>, \<lparr>role = ''assistant'', content = a\<rparr>])"
proof -
  let ?m1 = "\<lparr>role = ''user'', content = u\<rparr>"
  let ?m2 = "\<lparr>role = ''assistant'', content = a\<rparr>"
  have "buffer (add_interaction u a b) =
          deque_append (maxlen b) (deque_append (maxlen b) (buffer b) ?m1) ?m2"
    by (simp add: add_interaction_def Let_def)
  also have "deque_append (maxlen b) (buffer b) ?m1 =
               drop (length (zs @ [?m1]) - maxlen b) (zs @ [?m1])"
    unfolding assms deque_append_last by simp
  also have "deque_append (maxlen b) \<dots> ?m2 =
               drop (Suc (length (zs @ [?m1])) - maxlen b) ((zs @ [?m1]) @ [?m2])"
    by (rule deque_append_last)
  finally show ?thesis by simp
qed

lemma maxlen_add_interaction: "maxlen (add_interaction u a b) = maxlen b"
  by (simp add: add_interaction_def Let_def)

lemma add_interactions_last:
  "buffer b = drop (length zs - maxlen b) zs \<Longrightarrow>
   buffer (add_interactions xs b) =
     drop (length (zs @ exchange_messages xs) - maxlen b) (zs @ exchange_messages xs)"
proof (induction xs arbitrary: b zs)
  case Nil
  then show ?case by (simp add: exchange_messages_def)
next
  case (Cons x xs)
  obtain u a where x: "x = (u, a)" by (cases x)
  let ?b' = "add_interaction u a b"
  let ?zs' = "zs @ [\<lparr>role = ''user'', content = u\<rparr>, \<lparr>role = ''assistant'', content = a\<rparr>]"
  have "buffer ?b' = drop (length ?zs' - maxlen ?b') ?zs'"
    using add_interaction_last[OF Cons.prems, of u a] by (simp add: maxlen_add_interaction)
  from Cons.IH[OF this] show ?case
    by (simp add: x maxlen_add_interaction exchange_messages_def)
qed

text \<open>What the buffer holds after any sequence of exchanges from an empty buffer: the
  last \<open>maxlen\<close> messages, not the messages of the last \<open>maxlen\<close> exchanges.\<close>

lemma get_history_last_messages:
  "get_history (add_interactions xs \<lparr>maxlen = n, buffer = []\<rparr>) =
     drop (2 * length xs - n) (exchange_messages xs)"
proof -
  have len: "length (exchange_messages xs) = 2 * length xs"
    by (induction xs) (auto simp: exchange_messages_def)
  have "buffer \<lparr>maxlen = n, buffer = []\<rparr> = drop (length ([]::message list) - maxlen \<lparr>maxlen = n, buffer = []\<rparr>) []"
    by simp
  from add_interactions_last[OF this, of xs] show ?thesis
    by (simp add: get_history_def len)
qed

subsection \<open>Nearest-neighbour search and the deduplication test\<close>

lemma l2_sqr_nonneg: "0 \<le> l2_sqr x y"
  unfolding l2_sqr_def by (rule sum_list_nonneg) auto

lemma set_flat_l2_search:
  "(d, i) \<in> set (flat_l2_search ix q k) \<Longrightarrow>
     0 \<le> i \<and> nat i < length ix \<and> d = l2_sqr q (ix ! nat i)"
proof -
  assume "(d, i) \<in> set (flat_l2_search ix q k)"
  then have "(d, i) \<in> set (zip (map (l2_sqr q) ix) (map int [0..<length ix]))"
    unfolding flat_l2_search_def by (auto dest: in_set_takeD)
  then obtain j where "j < length ix" "d = l2_sqr q (ix ! j)" "i = int j"
    by (auto simp: in_set_zip)
  then show ?thesis by simp
qed

lemma hd_sort_key_min:
  assumes "xs \<noteq> []"
  shows "hd (sort_key f xs) \<in> set xs \<and> (\<forall>y\<in>set xs. f (hd (sort_key f xs)) \<le> f y)"
proof -
  let ?ys = "sort_key f xs"
  have ne: "?ys \<noteq> []" using assms by (metis length_sort length_0_conv)
  then obtain z zs where ys: "?ys = z # zs" by (cases ?ys) auto
  have "sorted (map f ?ys)" by (rule sorted_sort_key)
  then have "\<forall>y\<in>set zs. f z \<le> f y" unfolding ys by simp
  moreover have "set ?ys = set xs" by simp
  ultimately show ?thesis unfolding ys by (metis list.sel(1) list.set_intros(1) order_refl set_ConsD ys)
qed

lemma flat_l2_search_one:
  assumes "ix \<noteq> []"
  shows "\<exists>j<length ix. flat_l2_search ix q (Suc 0) = [(l2_sqr q (ix ! j), int j)] \<and>
           (\<forall>v\<in>set ix. l2_sqr q (ix ! j) \<le> l2_sqr q v)"
proof -
  let ?zs = "zip (map (l2_sqr q) ix) (map int [0..<length ix])"
  have ne: "?zs \<noteq> []" using assms by (cases ix) (auto simp: upt_conv_Cons)
  then have ne': "sort_key fst ?zs \<noteq> []" by (metis length_sort length_0_conv)
  from hd_sort_key_min[OF ne, of fst]
  have h: "hd (sort_key fst ?zs) \<in> set ?zs" "\<forall>y\<in>set ?zs. fst (hd (sort_key fst ?zs)) \<le> fst y"
    by auto
  obtain d i where di: "hd (sort_key fst ?zs) = (d, i)" by (cases "hd (sort_key fst ?zs)")
  from h(1) have "\<exists>n. map (l2_sqr q) ix ! n = d \<and> map int [0..<length ix] ! n = i \<and> n < length ix"
    unfolding di in_set_zip by auto
  then obtain j where j: "j < length ix" "hd (sort_key fst ?zs) = (l2_sqr q (ix ! j), int j)"
    unfolding di by auto
  have "flat_l2_search ix q (Suc 0) = [hd (sort_key fst ?zs)]"
    unfolding flat_l2_search_def using ne' by (cases "sort_key fst ?zs") auto
  moreover have "\<forall>v\<in>set ix. l2_sqr q (ix ! j) \<le> l2_sqr q v"
  proof
    fix v assume "v \<in> set ix"
    then obtain k where k: "k < length ix" "ix ! k = v" by (auto simp: in_set_conv_nth)
    then have "(l2_sqr q v, int k) \<in> set ?zs"
      unfolding in_set_zip by (intro exI[of _ k]) simp
    with h(2) j(2) show "l2_sqr q (ix ! j) \<le> l2_sqr q v" by fastforce
  qed
  ultimately show ?thesis using j by auto
qed

lemma dedup_match_near:
  assumes "\<exists>v\<in>set (db_index db). l2_sqr e v < 1"
  shows "\<exists>j<length (db_index db). dedup_match db e = Some (int j) \<and>
           l2_sqr e (db_index db ! j) < 1 \<and>
           (\<forall>v\<in>set (db_index db). l2_sqr e (db_index db ! j) \<le> l2_sqr e v)"
proof -
  from assms have ne: "db_index db \<noteq> []" by auto
  from flat_l2_search_one[OF ne, of e] obtain j where
    j: "j < length (db_index db)" "flat_l2_search (db_index db) e (Suc 0) = [(l2_sqr e (db_index db ! j), int j)]"
       "\<forall>v\<in>set (db_index db). l2_sqr e (db_index db ! j) \<le> l2_sqr e v" by blast
  from assms j(3) have lt: "l2_sqr e (db_index db ! j) < 1" by fastforce
  have "dedup_match db e = Some (int j)"
    using ne lt by (simp add: dedup_match_def j(2))
  with j lt show ?thesis by blast
qed

lemma dedup_match_far:
  assumes "\<forall>v\<in>set (db_index db). 1 \<le> l2_sqr e v"
  shows "dedup_match db e = None"
proof (cases "db_index db = []")
  case True
  then show ?thesis by (simp add: dedup_match_def)
next
  case False
  from flat_l2_search_one[OF False, of e] obtain j where
    j: "j < length (db_index db)" "flat_l2_search (db_index db) e (Suc 0) = [(l2_sqr e (db_index db ! j), int j)]"
    by blast
  then have "1 \<le> l2_sqr e (db_index db ! j)" using assms by simp
  then show ?thesis by (simp add: dedup_match_def j(2))
qed

subsection \<open>add\_memory: the two paths and the invariants\<close>

lemma py_index_nat: "j < n \<Longrightarrow> py_index n (int j) = Inr j"
  by (simp add: py_index_def)

lemma dedup_match_range:
  assumes "dedup_match db e = Some i"
  shows "\<exists>j<length (db_index db). i = int j"
proof -
  from assms obtain d rest where "flat_l2_search (db_index db) e 1 = (d, i) # rest"
    by (auto simp: dedup_match_def split: if_splits list.splits)
  then have "(d, i) \<in> set (flat_l2_search (db_index db) e 1)" by simp
  from set_flat_l2_search[OF this] show ?thesis by (intro exI[of _ "nat i"]) simp
qed

lemma add_memory_overwrite:
  assumes db: "databases s domain_name = Some db"
      and m: "dedup_match db (encode txt) = Some (int j)"
      and j: "j < length (db_data db)"
  shows "add_memory encode now domain_name txt imp mem_type s =
           (let memory = \<lparr>m_text = txt, m_timestamp = Some now,
                            m_importance = Some imp, m_type = Some mem_type\<rparr>;
                data' = (db_data db)[j := memory];
                new_index = map encode (map m_text data')
            in Inr (s\<lparr>databases := (databases s)(domain_name \<mapsto>
                           \<lparr>db_index = new_index, db_data = data'\<rparr>),
                      index_files := (index_files s)(domain_name \<mapsto> new_index),
                      meta_files := (meta_files s)(domain_name \<mapsto> data')\<rparr>))"
  using db m j by (simp add: add_memory_def Let_def py_index_nat save_domain_def)

lemma add_memory_append:
  assumes db: "databases s domain_name = Some db"
      and m: "dedup_match db (encode txt) = None"
  shows "add_memory encode now domain_name txt imp mem_type s =
           (let memory = \<lparr>m_text = txt, m_timestamp = Some now,
                            m_importance = Some imp, m_type = Some mem_type\<rparr>;
                data' = db_data db @ [memory];
                new_index = db_index db @ [encode txt]
            in Inr (s\<lparr>databases := (databases s)(domain_name \<mapsto>
                           \<lparr>db_index = new_index, db_data = data'\<rparr>),
                      index_files := (index_files s)(domain_name \<mapsto> new_index),
                      meta_files := (meta_files s)(domain_name \<mapsto> data')\<rparr>))"
  using db m by (simp add: add_memory_def Let_def save_domain_def)

lemma add_memory_unknown:
  "databases s domain_name = None \<Longrightarrow>
   add_memory encode now domain_name txt imp mem_type s =
     add_memory encode now domain_name txt imp mem_type (init_empty_domain domain_name s)"
  by (simp add: add_memory_def init_empty_domain_def split: option.splits)

lemma add_memory_loaded_inv:
  assumes db: "databases s domain_name = Some db" and inv: "store_inv encode db"
  shows "\<exists>s' db'. add_memory encode now domain_name txt imp mem_type s = Inr s' \<and>
           databases s' domain_name = Some db' \<and> store_inv encode db' \<and>
           index_files s' domain_name = Some (db_index db') \<and>
           meta_files s' domain_name = Some (db_data db')"
proof (cases "dedup_match db (encode txt)")
  case None
  from add_memory_append[of s domain_name db encode "txt" now imp mem_type, OF db None] inv
  show ?thesis by (simp add: Let_def store_inv_def)
next
  case (Some i)
  from dedup_match_range[OF Some] obtain j where j: "j < length (db_index db)" "i = int j" by blast
  with inv have j': "j < length (db_data db)" by (simp add: store_inv_def)
  from add_memory_overwrite[of s domain_name db encode "txt" j now imp mem_type, OF db Some[unfolded j(2)] j']
  show ?thesis by (simp add: Let_def store_inv_def)
qed

lemma init_empty_domain_ok:
  assumes "databases s domain_name = None" "domain_satisfies (store_inv encode) s domain_name"
  shows "\<exists>db. databases (init_empty_domain domain_name s) domain_name = Some db \<and> store_inv encode db"
  using assms by (auto simp: init_empty_domain_def domain_satisfies_def store_inv_def split: option.splits)

lemma add_memory_inv:
  assumes "domain_satisfies (store_inv encode) s domain_name"
  shows "\<exists>s' db'. add_memory encode now domain_name txt imp mem_type s = Inr s' \<and>
           databases s' domain_name = Some db' \<and> store_inv encode db' \<and>
           index_files s' domain_name = Some (db_index db') \<and>
           meta_files s' domain_name = Some (db_data db')"
proof (cases "databases s domain_name")
  case None
  from init_empty_domain_ok[OF None assms] obtain db where
    "databases (init_empty_domain domain_name s) domain_name = Some db" "store_inv encode db" by blast
  from add_memory_loaded_inv[OF this] show ?thesis unfolding add_memory_unknown[OF None] .
next
  case (Some db)
  with assms have "store_inv encode db" by (simp add: domain_satisfies_def)
  from add_memory_loaded_inv[OF Some this] show ?thesis .
qed

lemma add_memories_inv:
  assumes "domain_satisfies (store_inv encode) s domain_name"
  shows "\<exists>s'. add_memories encode domain_name calls s = Inr s' \<and> domain_satisfies (store_inv encode) s' domain_name \<and>
           (calls \<noteq> [] \<longrightarrow> (\<exists>db'. databases s' domain_name = Some db' \<and>
               index_files s' domain_name = Some (db_index db') \<and>
               meta_files s' domain_name = Some (db_data db')))"
  using assms
proof (induction calls arbitrary: s)
  case Nil
  then show ?case by simp
next
  case (Cons c calls)
  obtain now t imp ty where c: "c = (now, t, imp, ty)" by (cases c)
  from add_memory_inv[OF Cons.prems, of now t imp ty] obtain s1 db1 where
    s1: "add_memory encode now domain_name t imp ty s = Inr s1"
        "databases s1 domain_name = Some db1" "store_inv encode db1"
        "index_files s1 domain_name = Some (db_index db1)"
        "meta_files s1 domain_name = Some (db_data db1)" by blast
  then have ok1: "domain_satisfies (store_inv encode) s1 domain_name" by (simp add: domain_satisfies_def)
  from Cons.IH[OF ok1] obtain s' where
    s': "add_memories encode domain_name calls s1 = Inr s'" "domain_satisfies (store_inv encode) s' domain_name"
        "calls \<noteq> [] \<longrightarrow> (\<exists>db'. databases s' domain_name = Some db' \<and>
               index_files s' domain_name = Some (db_index db') \<and>
               meta_files s' domain_name = Some (db_data db'))" by blast
  show ?case
  proof (cases "calls = []")
    case True
    with s1 ok1 show ?thesis by (simp add: c)
  next
    case False
    with s' s1 show ?thesis by (simp add: c)
  qed
qed


lemma dedup_overwrite_counts:
  assumes db: "databases s domain_name = Some db" and inv: "counts_agree db"
  shows "\<exists>s' db'. add_memory encode now domain_name txt imp mem_type s = Inr s' \<and>
           databases s' domain_name = Some db' \<and> counts_agree db'"
proof (cases "dedup_match db (encode txt)")
  case None
  from add_memory_append[of s domain_name db encode "txt" now imp mem_type, OF db None] inv
  show ?thesis by (simp add: Let_def counts_agree_def)
next
  case (Some i)
  from dedup_match_range[OF Some] obtain j where j: "j < length (db_index db)" "i = int j" by blast
  with inv have j': "j < length (db_data db)" by (simp add: counts_agree_def)
  from add_memory_overwrite[of s domain_name db encode "txt" j now imp mem_type, OF db Some[unfolded j(2)] j']
  show ?thesis by (simp add: Let_def counts_agree_def)
qed

lemma add_memory_counts:
  assumes "domain_satisfies counts_agree s domain_name"
  shows "\<exists>s' db'. add_memory encode now domain_name txt imp mem_type s = Inr s' \<and>
           databases s' domain_name = Some db' \<and> counts_agree db'"
proof (cases "databases s domain_name")
  case None
  with assms obtain db where
    "databases (init_empty_domain domain_name s) domain_name = Some db" "counts_agree db"
    by (auto simp: init_empty_domain_def domain_satisfies_def counts_agree_def split: option.splits)
  from dedup_overwrite_counts[OF this] show ?thesis unfolding add_memory_unknown[OF None] .
next
  case (Some db)
  with assms have "counts_agree db" by (simp add: domain_satisfies_def)
  from dedup_overwrite_counts[OF Some this] show ?thesis .
qed

lemma add_memories_counts:
  assumes "domain_satisfies counts_agree s domain_name"
  shows "\<exists>s'. add_memories encode domain_name calls s = Inr s' \<and>
           domain_satisfies counts_agree s' domain_name \<and>
           (calls \<noteq> [] \<longrightarrow> databases s' domain_name \<noteq> None)"
  using assms
proof (induction calls arbitrary: s)
  case Nil
  then show ?case by simp
next
  case (Cons c calls)
  obtain now t imp ty where c: "c = (now, t, imp, ty)" by (cases c)
  from add_memory_counts[OF Cons.prems, of encode now t imp ty] obtain s1 db1 where
    s1: "add_memory encode now domain_name t imp ty s = Inr s1"
        "databases s1 domain_name = Some db1" "counts_agree db1" by blast
  then have ok1: "domain_satisfies counts_agree s1 domain_name" by (simp add: domain_satisfies_def)
  from Cons.IH[OF ok1] obtain s' where
    s': "add_memories encode domain_name calls s1 = Inr s'" "domain_satisfies counts_agree s' domain_name"
        "calls \<noteq> [] \<longrightarrow> databases s' domain_name \<noteq> None" by blast
  show ?case
  proof (cases "calls = []")
    case True
    with s1 ok1 show ?thesis by (simp add: c)
  next
    case False
    with s' s1 show ?thesis by (simp add: c)
  qed
qed

subsection \<open>The claims on add\_memory, domain loading and the conversation window\<close>

text \<open>Claim C9, at a concrete input. A buffer made with \<open>max_turns = 5\<close> and given three
  exchanges returns five messages, beginning with the assistant message of the first
  exchange whose user message is gone; the most recent five exchanges would be all
  three exchanges, six messages.\<close>

theorem history_window_counts_messages:
  "ConversationBuffer 5 = Inr \<lparr>maxlen = 5, buffer = []\<rparr> \<and>
   get_history (add_interactions [(''u1'', ''a1''), (''u2'', ''a2''), (''u3'', ''a3'')]
                  \<lparr>maxlen = 5, buffer = []\<rparr>) =
     [\<lparr>role = ''assistant'', content = ''a1''\<rparr>,
      \<lparr>role = ''user'', content = ''u2''\<rparr>, \<lparr>role = ''assistant'', content = ''a2''\<rparr>,
      \<lparr>role = ''user'', content = ''u3''\<rparr>, \<lparr>role = ''assistant'', content = ''a3''\<rparr>] \<and>
   recent_exchanges 5 [(''u1'', ''a1''), (''u2'', ''a2''), (''u3'', ''a3'')] =
     [\<lparr>role = ''user'', content = ''u1''\<rparr>, \<lparr>role = ''assistant'', content = ''a1''\<rparr>,
      \<lparr>role = ''user'', content = ''u2''\<rparr>, \<lparr>role = ''assistant'', content = ''a2''\<rparr>,
      \<lparr>role = ''user'', content = ''u3''\<rparr>, \<lparr>role = ''assistant'', content = ''a3''\<rparr>]"
  by (simp add: ConversationBuffer_def get_history_def add_interaction_def deque_append_def
      Let_def recent_exchanges_def exchange_messages_def)

text \<open>Claim C8. Initialising a memory domain of which the index file or the metadata file
  is absent yields the empty store (no vector, no record) and writes both files empty;
  the function has no failing branch. Constructing the quote manager when the corpus
  file is absent raises FileNotFoundError.\<close>

theorem missing_files_empty_store_missing_corpus_fatal:
  "((index_files s domain_name = None \<or> meta_files s domain_name = None) \<longrightarrow>
      databases (init_empty_domain domain_name s) domain_name = Some \<lparr>db_index = [], db_data = []\<rparr> \<and>
      index_files (init_empty_domain domain_name s) domain_name = Some [] \<and>
      meta_files (init_empty_domain domain_name s) domain_name = Some []) \<and>
   QuoteDBManager encode None index_file = Inl FileNotFoundError"
  by (auto simp: init_empty_domain_def QuoteDBManager_def load_or_build_def split: option.splits)

text \<open>Claim C8 on a manager without any file.\<close>

theorem missing_files_witness:
  "databases (init_empty_domain ''preferences'' fresh_manager) ''preferences'' =
     Some \<lparr>db_index = [], db_data = []\<rparr> \<and>
   QuoteDBManager example_encode None None = Inl FileNotFoundError"
  using missing_files_empty_store_missing_corpus_fatal
          [of fresh_manager "''preferences''" example_encode None]
  by (simp add: fresh_manager_def)

text \<open>Claim C2. On a loaded domain: when some stored vector lies at distance below 1.0 of
  the new text's embedding (and the index is not longer than the metadata list, so that
  the matched record exists), \<^verbatim>\<open>add_memory\<close> succeeds, the record at the position \<open>j\<close>
  of a nearest vector is replaced by the new text, timestamp \<open>now\<close>, importance and
  type, the record count is unchanged and the index is rebuilt from the texts of the
  whole updated list. When every stored vector is at distance 1.0 or more (or there is
  none), the new record with timestamp \<open>now\<close> is appended and the count grows by one.
  In both paths the two files of the domain hold the new index and list afterwards.\<close>

theorem add_memory_overwrites_or_appends:
  assumes db: "databases s domain_name = Some db"
  shows "((length (db_index db) \<le> length (db_data db) \<and>
           (\<exists>v\<in>set (db_index db). l2_sqr (encode txt) v < 1)) \<longrightarrow>
          (\<exists>j s' db'. j < length (db_index db) \<and>
             l2_sqr (encode txt) (db_index db ! j) < 1 \<and>
             (\<forall>v\<in>set (db_index db). l2_sqr (encode txt) (db_index db ! j) \<le> l2_sqr (encode txt) v) \<and>
             add_memory encode now domain_name txt imp mem_type s = Inr s' \<and>
             databases s' domain_name = Some db' \<and>
             db_data db' = (db_data db)[j := \<lparr>m_text = txt, m_timestamp = Some now,
                                              m_importance = Some imp, m_type = Some mem_type\<rparr>] \<and>
             length (db_data db') = length (db_data db) \<and>
             db_index db' = map encode (map m_text (db_data db')) \<and>
             index_files s' domain_name = Some (db_index db') \<and>
             meta_files s' domain_name = Some (db_data db'))) \<and>
         ((\<forall>v\<in>set (db_index db). 1 \<le> l2_sqr (encode txt) v) \<longrightarrow>
          (\<exists>s' db'. add_memory encode now domain_name txt imp mem_type s = Inr s' \<and>
             databases s' domain_name = Some db' \<and>
             db_data db' = db_data db @ [\<lparr>m_text = txt, m_timestamp = Some now,
                                           m_importance = Some imp, m_type = Some mem_type\<rparr>] \<and>
             length (db_data db') = length (db_data db) + 1 \<and>
             db_index db' = db_index db @ [encode txt] \<and>
             index_files s' domain_name = Some (db_index db') \<and>
             meta_files s' domain_name = Some (db_data db')))"
proof (intro conjI impI)
  assume a: "length (db_index db) \<le> length (db_data db) \<and>
             (\<exists>v\<in>set (db_index db). l2_sqr (encode txt) v < 1)"
  then have near: "\<exists>v\<in>set (db_index db). l2_sqr (encode txt) v < 1" by simp
  from dedup_match_near[OF near] obtain j where
    j: "j < length (db_index db)" "dedup_match db (encode txt) = Some (int j)"
       "l2_sqr (encode txt) (db_index db ! j) < 1"
       "\<forall>v\<in>set (db_index db). l2_sqr (encode txt) (db_index db ! j) \<le> l2_sqr (encode txt) v"
    by blast
  from j(1) a have j': "j < length (db_data db)" by simp
  note ow = add_memory_overwrite[of s domain_name db encode "txt" j now imp mem_type, OF db j(2) j']
  show "\<exists>j s' db'. j < length (db_index db) \<and>
             l2_sqr (encode txt) (db_index db ! j) < 1 \<and>
             (\<forall>v\<in>set (db_index db). l2_sqr (encode txt) (db_index db ! j) \<le> l2_sqr (encode txt) v) \<and>
             add_memory encode now domain_name txt imp mem_type s = Inr s' \<and>
             databases s' domain_name = Some db' \<and>
             db_data db' = (db_data db)[j := \<lparr>m_text = txt, m_timestamp = Some now,
                                              m_importance = Some imp, m_type = Some mem_type\<rparr>] \<and>
             length (db_data db') = length (db_data db) \<and>
             db_index db' = map encode (map m_text (db_data db')) \<and>
             index_files s' domain_name = Some (db_index db') \<and>
             meta_files s' domain_name = Some (db_data db')"
    apply (rule exI[of _ j])
    using j(1,3,4) by (simp add: ow Let_def)
next
  assume far: "\<forall>v\<in>set (db_index db). 1 \<le> l2_sqr (encode txt) v"
  note ap = add_memory_append[of s domain_name db encode "txt" now imp mem_type, OF db dedup_match_far[OF far]]
  show "\<exists>s' db'. add_memory encode now domain_name txt imp mem_type s = Inr s' \<and>
             databases s' domain_name = Some db' \<and>
             db_data db' = db_data db @ [\<lparr>m_text = txt, m_timestamp = Some now,
                                           m_importance = Some imp, m_type = Some mem_type\<rparr>] \<and>
             length (db_data db') = length (db_data db) + 1 \<and>
             db_index db' = db_index db @ [encode txt] \<and>
             index_files s' domain_name = Some (db_index db') \<and>
             meta_files s' domain_name = Some (db_data db')"
    by (simp add: ap Let_def)
qed

text \<open>Claim C2 on a one-record store: a text at distance 0 overwrites, a text at distance
  36 appends.\<close>

theorem add_memory_overwrites_or_appends_witness:
  "(\<exists>s' db'. add_memory example_encode 20 ''preferences'' ''dusk'' 0.9 ''preferences''
                example_manager = Inr s' \<and>
      databases s' ''preferences'' = Some db' \<and>
      db_data db' = [\<lparr>m_text = ''dusk'', m_timestamp = Some 20, m_importance = Some 0.9,
                       m_type = Some ''preferences''\<rparr>] \<and>
      db_index db' = [[4]] \<and> meta_files s' ''preferences'' = Some (db_data db')) \<and>
   (\<exists>s' db'. add_memory example_encode 20 ''preferences'' ''light mode'' 0.9 ''preferences''
                example_manager = Inr s' \<and>
      databases s' ''preferences'' = Some db' \<and>
      db_data db' = [example_memory,
                     \<lparr>m_text = ''light mode'', m_timestamp = Some 20, m_importance = Some 0.9,
                       m_type = Some ''preferences''\<rparr>] \<and>
      db_index db' = [[4], [10]] \<and> meta_files s' ''preferences'' = Some (db_data db'))"
proof -
  have db: "databases example_manager ''preferences'' =
              Some \<lparr>db_index = [[4]], db_data = [example_memory]\<rparr>"
    by (simp add: example_manager_def)
  have near: "length (db_index \<lparr>db_index = [[4]], db_data = [example_memory]\<rparr>)
                \<le> length (db_data \<lparr>db_index = [[4]], db_data = [example_memory]\<rparr>) \<and>
              (\<exists>v\<in>set (db_index \<lparr>db_index = [[4]], db_data = [example_memory]\<rparr>).
                 l2_sqr (example_encode ''dusk'') v < 1)"
    by (simp add: example_encode_def l2_sqr_def)
  have far: "\<forall>v\<in>set (db_index \<lparr>db_index = [[4]], db_data = [example_memory]\<rparr>).
               1 \<le> l2_sqr (example_encode ''light mode'') v"
    by (simp add: example_encode_def l2_sqr_def)
  from add_memory_overwrites_or_appends[OF db, of example_encode "''dusk''" 20 "0.9" "''preferences''"] near
  have 1: "\<exists>s' db'. add_memory example_encode 20 ''preferences'' ''dusk'' 0.9 ''preferences''
                example_manager = Inr s' \<and>
      databases s' ''preferences'' = Some db' \<and>
      db_data db' = [\<lparr>m_text = ''dusk'', m_timestamp = Some 20, m_importance = Some 0.9,
                       m_type = Some ''preferences''\<rparr>] \<and>
      db_index db' = [[4]] \<and> meta_files s' ''preferences'' = Some (db_data db')"
    by (auto simp: example_encode_def)
  from add_memory_overwrites_or_appends[OF db, of example_encode "''light mode''" 20 "0.9" "''preferences''"] far
  have 2: "\<exists>s' db'. add_memory example_encode 20 ''preferences'' ''light mode'' 0.9 ''preferences''
                example_manager = Inr s' \<and>
      databases s' ''preferences'' = Some db' \<and>
      db_data db' = [example_memory,
                     \<lparr>m_text = ''light mode'', m_timestamp = Some 20, m_importance = Some 0.9,
                       m_type = Some ''preferences''\<rparr>] \<and>
      db_index db' = [[4], [10]] \<and> meta_files s' ''preferences'' = Some (db_data db')"
    by (auto simp: example_encode_def)
  from 1 2 show ?thesis by blast
qed

lemma store_inv_nth:
  "store_inv encode db \<Longrightarrow>
     length (db_index db) = length (db_data db) \<and>
     (\<forall>i<length (db_data db). db_index db ! i = encode (m_text (db_data db ! i)))"
  by (simp add: store_inv_def)

text \<open>Claim C3. Any finite sequence of \<^verbatim>\<open>add_memory\<close> calls on a domain succeeds and keeps
  the index parallel to the metadata list: if index and list have equal length at the
  start (in the loaded store, or in the files the domain would be loaded from; a domain
  without files starts empty), they have equal length at the end; and if moreover each
  vector is the embedding of its record's text at the start, then at the end the
  \<open>i\<close>-th vector is the embedding of the \<open>i\<close>-th record's text, for every \<open>i\<close>, and
  the files hold that store. Both paths of \<^verbatim>\<open>add_memory\<close> are covered, the sequence
  being arbitrary.\<close>

theorem add_memory_sequence_keeps_index_parallel:
  "(domain_satisfies counts_agree s domain_name \<longrightarrow>
      (\<exists>s'. add_memories encode domain_name calls s = Inr s' \<and>
         domain_satisfies counts_agree s' domain_name \<and>
         (calls \<noteq> [] \<longrightarrow>
            (\<exists>db'. databases s' domain_name = Some db' \<and>
               length (db_index db') = length (db_data db'))))) \<and>
   (domain_satisfies (store_inv encode) s domain_name \<longrightarrow>
      (\<exists>s'. add_memories encode domain_name calls s = Inr s' \<and>
         domain_satisfies (store_inv encode) s' domain_name \<and>
         (calls \<noteq> [] \<longrightarrow>
            (\<exists>db'. databases s' domain_name = Some db' \<and>
               length (db_index db') = length (db_data db') \<and>
               (\<forall>i<length (db_data db').
                  db_index db' ! i = encode (m_text (db_data db' ! i))) \<and>
               index_files s' domain_name = Some (db_index db') \<and>
               meta_files s' domain_name = Some (db_data db')))))"
proof (intro conjI impI)
  assume "domain_satisfies counts_agree s domain_name"
  from add_memories_counts[OF this, of encode calls] obtain s' where
    s': "add_memories encode domain_name calls s = Inr s'"
        "domain_satisfies counts_agree s' domain_name"
        "calls \<noteq> [] \<longrightarrow> databases s' domain_name \<noteq> None" by blast
  have "calls \<noteq> [] \<longrightarrow> (\<exists>db'. databases s' domain_name = Some db' \<and>
               length (db_index db') = length (db_data db'))"
    using s'(2,3) by (auto simp: domain_satisfies_def counts_agree_def)
  with s'(1,2) show "\<exists>s'. add_memories encode domain_name calls s = Inr s' \<and>
         domain_satisfies counts_agree s' domain_name \<and>
         (calls \<noteq> [] \<longrightarrow>
            (\<exists>db'. databases s' domain_name = Some db' \<and>
               length (db_index db') = length (db_data db')))" by blast
next
  assume "domain_satisfies (store_inv encode) s domain_name"
  from add_memories_inv[OF this, of calls] obtain s' where
    s': "add_memories encode domain_name calls s = Inr s'"
        "domain_satisfies (store_inv encode) s' domain_name"
        "calls \<noteq> [] \<longrightarrow> (\<exists>db'. databases s' domain_name = Some db' \<and>
               index_files s' domain_name = Some (db_index db') \<and>
               meta_files s' domain_name = Some (db_data db'))" by blast
  have "calls \<noteq> [] \<longrightarrow>
            (\<exists>db'. databases s' domain_name = Some db' \<and>
               length (db_index db') = length (db_data db') \<and>
               (\<forall>i<length (db_data db').
                  db_index db' ! i = encode (m_text (db_data db' ! i))) \<and>
               index_files s' domain_name = Some (db_index db') \<and>
               meta_files s' domain_name = Some (db_data db'))"
  proof
    assume "calls \<noteq> []"
    with s'(3) obtain db' where db': "databases s' domain_name = Some db'"
      "index_files s' domain_name = Some (db_index db')"
      "meta_files s' domain_name = Some (db_data db')" by blast
    with s'(2) have "store_inv encode db'" by (simp add: domain_satisfies_def)
    from store_inv_nth[OF this] db' show "\<exists>db'. databases s' domain_name = Some db' \<and>
               length (db_index db') = length (db_data db') \<and>
               (\<forall>i<length (db_data db').
                  db_index db' ! i = encode (m_text (db_data db' ! i))) \<and>
               index_files s' domain_name = Some (db_index db') \<and>
               meta_files s' domain_name = Some (db_data db')" by blast
  qed
  with s'(1,2) show "\<exists>s'. add_memories encode domain_name calls s = Inr s' \<and>
         domain_satisfies (store_inv encode) s' domain_name \<and>
         (calls \<noteq> [] \<longrightarrow>
            (\<exists>db'. databases s' domain_name = Some db' \<and>
               length (db_index db') = length (db_data db') \<and>
               (\<forall>i<length (db_data db').
                  db_index db' ! i = encode (m_text (db_data db' ! i))) \<and>
               index_files s' domain_name = Some (db_index db') \<and>
               meta_files s' domain_name = Some (db_data db')))" by blast
qed

text \<open>Claim C3 from a manager with no domain and no file: an append, an append and an
  overwrite.\<close>

theorem add_memory_sequence_witness:
  "\<exists>s' db'. add_memories example_encode ''preferences''
               [(1, ''dark'', 0.5, ''preferences''), (2, ''light mode'', 0.9, ''preferences''),
                (3, ''dusk'', 0.7, ''preferences'')] fresh_manager = Inr s' \<and>
      databases s' ''preferences'' = Some db' \<and>
      length (db_index db') = length (db_data db') \<and>
      length (db_data db') = 2 \<and>
      db_index db' ! 0 = example_encode (m_text (db_data db' ! 0)) \<and>
      db_index db' ! 1 = example_encode (m_text (db_data db' ! 1))"
proof -
  let ?calls = "[(1::real, ''dark'', 0.5::real, ''preferences''),
                 (2, ''light mode'', 0.9, ''preferences''), (3, ''dusk'', 0.7, ''preferences'')]"
  have ok: "domain_satisfies (store_inv example_encode) fresh_manager ''preferences''"
    by (simp add: domain_satisfies_def fresh_manager_def)
  have ne: "?calls \<noteq> []" by simp
  have run: "add_memories example_encode ''preferences'' ?calls fresh_manager =
        Inr \<lparr>databases = [''preferences'' \<mapsto> \<lparr>db_index = [[4], [10]], db_data =
                 [\<lparr>m_text = ''dusk'', m_timestamp = Some 3, m_importance = Some 0.7, m_type = Some ''preferences''\<rparr>,
                  \<lparr>m_text = ''light mode'', m_timestamp = Some 2, m_importance = Some 0.9, m_type = Some ''preferences''\<rparr>]\<rparr>],
               index_files = [''preferences'' \<mapsto> [[4], [10]]],
               meta_files = [''preferences'' \<mapsto> [\<lparr>m_text = ''dusk'', m_timestamp = Some 3, m_importance = Some 0.7, m_type = Some ''preferences''\<rparr>,
                  \<lparr>m_text = ''light mode'', m_timestamp = Some 2, m_importance = Some 0.9, m_type = Some ''preferences''\<rparr>]]\<rparr>"
    by (simp add: add_memory_def fresh_manager_def init_empty_domain_def dedup_match_def
        flat_l2_search_def l2_sqr_def example_encode_def py_index_def save_domain_def Let_def)
  from add_memory_sequence_keeps_index_parallel
         [of fresh_manager "''preferences''" example_encode ?calls] ok ne
  obtain s' db' where
    r: "add_memories example_encode ''preferences'' ?calls fresh_manager = Inr s'"
       "databases s' ''preferences'' = Some db'"
       "length (db_index db') = length (db_data db')"
       "\<forall>i<length (db_data db'). db_index db' ! i = example_encode (m_text (db_data db' ! i))"
    by blast
  from r(1,2) have len: "length (db_data db') = 2" unfolding run by auto
  with r(4) have "db_index db' ! 0 = example_encode (m_text (db_data db' ! 0))"
    "db_index db' ! 1 = example_encode (m_text (db_data db' ! 1))" by simp_all
  with r(1,2,3) len show ?thesis by blast
qed

text \<open>Claim C10. \<^verbatim>\<open>add_memory\<close> on a name that is not in \<^verbatim>\<open>databases\<close> never raises
  KeyError: it is the call on the manager after \<^verbatim>\<open>_init_empty_domain\<close>. Without prior
  files of the domain, the result has the domain with exactly the new record and its
  embedding, in memory and in both files. With prior files (the index not longer than
  the metadata list) the call succeeds and the domain holds the new record.\<close>

theorem add_memory_unknown_domain:
  assumes "databases s domain_name = None"
  shows "add_memory encode now domain_name txt imp mem_type s \<noteq> Inl KeyError \<and>
         add_memory encode now domain_name txt imp mem_type s =
           add_memory encode now domain_name txt imp mem_type (init_empty_domain domain_name s) \<and>
         ((index_files s domain_name = None \<or> meta_files s domain_name = None) \<longrightarrow>
            add_memory encode now domain_name txt imp mem_type s =
              Inr (s\<lparr>databases := (databases s)(domain_name \<mapsto>
                          \<lparr>db_index = [encode txt],
                           db_data = [\<lparr>m_text = txt, m_timestamp = Some now,
                                       m_importance = Some imp, m_type = Some mem_type\<rparr>]\<rparr>),
                     index_files := (index_files s)(domain_name \<mapsto> [encode txt]),
                     meta_files := (meta_files s)(domain_name \<mapsto>
                          [\<lparr>m_text = txt, m_timestamp = Some now,
                             m_importance = Some imp, m_type = Some mem_type\<rparr>])\<rparr>)) \<and>
         (\<forall>ix md. index_files s domain_name = Some ix \<and> meta_files s domain_name = Some md \<and>
              length ix \<le> length md \<longrightarrow>
            (\<exists>s' db'. add_memory encode now domain_name txt imp mem_type s = Inr s' \<and>
               databases s' domain_name = Some db' \<and>
               \<lparr>m_text = txt, m_timestamp = Some now,
                 m_importance = Some imp, m_type = Some mem_type\<rparr> \<in> set (db_data db')))"
proof (intro conjI allI impI)
  show "add_memory encode now domain_name txt imp mem_type s \<noteq> Inl KeyError"
    by (auto simp: add_memory_def Let_def init_empty_domain_def save_domain_def py_index_def
        split: option.splits if_splits sum.splits)
next
  show "add_memory encode now domain_name txt imp mem_type s =
           add_memory encode now domain_name txt imp mem_type (init_empty_domain domain_name s)"
    by (rule add_memory_unknown[OF assms])
next
  assume "index_files s domain_name = None \<or> meta_files s domain_name = None"
  then have "init_empty_domain domain_name s =
          s\<lparr>databases := (databases s)(domain_name \<mapsto> \<lparr>db_index = [], db_data = []\<rparr>),
            index_files := (index_files s)(domain_name \<mapsto> []),
            meta_files := (meta_files s)(domain_name \<mapsto> [])\<rparr>"
    by (auto simp: init_empty_domain_def split: option.splits)
  then show "add_memory encode now domain_name txt imp mem_type s =
              Inr (s\<lparr>databases := (databases s)(domain_name \<mapsto>
                          \<lparr>db_index = [encode txt],
                           db_data = [\<lparr>m_text = txt, m_timestamp = Some now,
                                       m_importance = Some imp, m_type = Some mem_type\<rparr>]\<rparr>),
                     index_files := (index_files s)(domain_name \<mapsto> [encode txt]),
                     meta_files := (meta_files s)(domain_name \<mapsto>
                          [\<lparr>m_text = txt, m_timestamp = Some now,
                             m_importance = Some imp, m_type = Some mem_type\<rparr>])\<rparr>)"
    using assms by (simp add: add_memory_def Let_def dedup_match_def save_domain_def)
next
  fix ix md
  let ?memory = "\<lparr>m_text = txt, m_timestamp = Some now,
                   m_importance = Some imp, m_type = Some mem_type\<rparr>"
  let ?s1 = "init_empty_domain domain_name s"
  let ?db = "\<lparr>db_index = ix, db_data = md\<rparr>"
  assume a: "index_files s domain_name = Some ix \<and> meta_files s domain_name = Some md \<and>
              length ix \<le> length md"
  then have db: "databases ?s1 domain_name = Some ?db"
    by (simp add: init_empty_domain_def)
  show "\<exists>s' db'. add_memory encode now domain_name txt imp mem_type s = Inr s' \<and>
               databases s' domain_name = Some db' \<and> ?memory \<in> set (db_data db')"
  proof (cases "dedup_match ?db (encode txt)")
    case None
    from add_memory_append[of ?s1 domain_name ?db encode "txt" now imp mem_type, OF db None]
    show ?thesis unfolding add_memory_unknown[OF assms] by (simp add: Let_def)
  next
    case (Some i)
    from dedup_match_range[OF Some] obtain j where j: "j < length ix" "i = int j" by auto
    with a have j': "j < length (db_data ?db)" by simp
    from add_memory_overwrite[of ?s1 domain_name ?db encode "txt" j now imp mem_type,
           OF db Some[unfolded j(2)] j'] j'
    show ?thesis unfolding add_memory_unknown[OF assms]
      by (simp add: Let_def set_update_memI)
  qed
qed

text \<open>Claim C10 on a manager that has another domain only.\<close>

theorem add_memory_unknown_domain_witness:
  "add_memory example_encode 7 ''hobbies'' ''chess'' 0.5 ''general'' example_manager =
     Inr (example_manager\<lparr>databases := (databases example_manager)(''hobbies'' \<mapsto>
            \<lparr>db_index = [[5]],
             db_data = [\<lparr>m_text = ''chess'', m_timestamp = Some 7,
                         m_importance = Some 0.5, m_type = Some ''general''\<rparr>]\<rparr>),
          index_files := (index_files example_manager)(''hobbies'' \<mapsto> [[5]]),
          meta_files := (meta_files example_manager)(''hobbies'' \<mapsto>
            [\<lparr>m_text = ''chess'', m_timestamp = Some 7,
               m_importance = Some 0.5, m_type = Some ''general''\<rparr>])\<rparr>)"
proof -
  have un: "databases example_manager ''hobbies'' = None"
    by (simp add: example_manager_def)
  have nofile: "index_files example_manager ''hobbies'' = None \<or>
                meta_files example_manager ''hobbies'' = None"
    by (simp add: example_manager_def)
  note t = add_memory_unknown_domain[OF un, of example_encode 7 "''chess''" "0.5" "''general''"]
  from t[THEN conjunct2, THEN conjunct2, THEN conjunct1, rule_format, OF nofile]
  show ?thesis by (simp add: example_encode_def)
qed

subsection \<open>search\_with\_decay: scoring, relevance floor and order\<close>

lemma sorted_sort_desc: "sorted_wrt (\<lambda>a b. b \<le> a) (map key (sort_desc key xs))"
proof -
  have "sorted (map (\<lambda>x. - key x) (sort_key (\<lambda>x. - key x) xs))" by (rule sorted_sort_key)
  then show ?thesis by (simp add: sort_desc_def sorted_wrt_map)
qed

lemma mset_sort_desc: "mset (sort_desc key xs) = mset xs"
  by (simp add: sort_desc_def)

lemma set_sort_desc: "set (sort_desc key xs) = set xs"
  by (simp add: sort_desc_def)

lemma base_similarity_pos: "0 \<le> d \<Longrightarrow> 0 < base_similarity d \<and> base_similarity d \<le> 1"
  by (simp add: base_similarity_def)

lemma score_hit_spec:
  assumes j: "0 \<le> i" "nat i < length dat"
      and ts: "\<forall>m\<in>set dat. \<forall>ts. m_timestamp m = Some ts \<longrightarrow> ts \<le> now"
  shows "score_hit now dat (d, i) =
           Inr (if 0.40 \<le> 1 / (1 + d)
                then Some (spec_final_score now (1 / (1 + d)) (dat ! nat i), dat ! nat i)
                else None)"
proof -
  have idx: "py_index (length dat) i = Inr (nat i)" using j by (simp add: py_index_def)
  have i1: "i \<noteq> -1" using j by simp
  have mem: "dat ! nat i \<in> set dat" using j by simp
  show ?thesis
  proof (cases "m_timestamp (dat ! nat i)")
    case None
    then show ?thesis using i1
      by (simp add: score_hit_def idx Let_def base_similarity_def spec_final_score_def not_less)
  next
    case (Some t)
    with ts mem have "t \<le> now" by blast
    then have "1 + (now - t) / 86400 \<noteq> 0"
      by (smt (verit) divide_nonneg_pos)
    with Some show ?thesis using i1
      by (simp add: score_hit_def idx Let_def base_similarity_def spec_final_score_def not_less)
  qed
qed

lemma score_hits_spec:
  assumes "\<forall>(d, i)\<in>set hits. 0 \<le> i \<and> nat i < length dat"
      and ts: "\<forall>m\<in>set dat. \<forall>ts. m_timestamp m = Some ts \<longrightarrow> ts \<le> now"
  shows "score_hits now dat hits acc = Inr (acc @ spec_scored now dat hits)"
  using assms(1)
proof (induction hits arbitrary: acc)
  case Nil
  then show ?case by (simp add: spec_scored_def)
next
  case (Cons h hits)
  obtain d i where h: "h = (d, i)" by (cases h)
  from Cons.prems h have j: "0 \<le> i" "nat i < length dat" by auto
  from Cons.prems have rest: "\<forall>(d, i)\<in>set hits. 0 \<le> i \<and> nat i < length dat" by auto
  note sh = score_hit_spec[OF j ts, of d]
  show ?case
    by (simp add: h sh Cons.IH[OF rest] spec_scored_def)
qed

text \<open>Claim C7. Two dynamic records scored in the same \<^verbatim>\<open>search_with_decay\<close> call (same
  clock reading, same metadata list) with equal base similarity and equal importance: both
  passed the relevance floor, each score is \<open>s + importance * 0.5 + s * (1 / (1 + age))\<close>
  with its age in days, and when the ages are non-negative the record of smaller age
  scores at least as high as the older one.\<close>

theorem decay_monotone:
  assumes h1: "score_hit now dat (d1, i1) = Inr (Some (sc1, m1))"
      and h2: "score_hit now dat (d2, i2) = Inr (Some (sc2, m2))"
      and t1: "m_timestamp m1 = Some t1" and t2: "m_timestamp m2 = Some t2"
      and s: "base_similarity d1 = base_similarity d2"
      and imp: "m_importance m1 = m_importance m2"
      and a1: "0 \<le> (now - t1) / 86400"
      and a12: "(now - t1) / 86400 \<le> (now - t2) / 86400"
  shows "sc2 \<le> sc1 \<and> 0.40 \<le> base_similarity d1 \<and>
         sc1 = base_similarity d1 + (case m_importance m1 of None \<Rightarrow> 0.5 | Some v \<Rightarrow> v) * 0.5
                 + base_similarity d1 * (1 / (1 + (now - t1) / 86400)) \<and>
         sc2 = base_similarity d2 + (case m_importance m2 of None \<Rightarrow> 0.5 | Some v \<Rightarrow> v) * 0.5
                 + base_similarity d2 * (1 / (1 + (now - t2) / 86400))"
proof -
  let ?s = "base_similarity d1"
  let ?imp = "case m_importance m1 of None \<Rightarrow> 0.5 | Some v \<Rightarrow> v"
  let ?a1 = "(now - t1) / 86400" and ?a2 = "(now - t2) / 86400"
  from h1 t1 have e1: "sc1 = ?s + ?imp * 0.5 + ?s * (1 / (1 + ?a1))" and floor: "0.40 \<le> ?s"
    by (auto simp: score_hit_def Let_def split: if_splits sum.splits option.splits)
  from h2 t2 have e2: "sc2 = base_similarity d2 + (case m_importance m2 of None \<Rightarrow> 0.5 | Some v \<Rightarrow> v) * 0.5
       + base_similarity d2 * (1 / (1 + ?a2))"
    by (auto simp: score_hit_def Let_def split: if_splits sum.splits option.splits)
  have p1: "0 < 1 + ?a1" using a1 by linarith
  have p2: "0 < 1 + ?a2" using a1 a12 by linarith
  have "1 / (1 + ?a2) \<le> 1 / (1 + ?a1)"
    using a12 p1 p2 by (intro divide_left_mono mult_pos_pos) linarith+
  with floor have "?s * (1 / (1 + ?a2)) \<le> ?s * (1 / (1 + ?a1))"
    by (intro mult_left_mono) auto
  with e1 e2 s imp floor show ?thesis by simp
qed


text \<open>Claim C7 on two records at distance 0, one day and two days old.\<close>

theorem decay_monotone_witness:
  "score_hit 172800 [old_memory, recent_memory, static_memory] (0, 1) =
     Inr (Some (7 / 4, recent_memory)) \<and>
   score_hit 172800 [old_memory, recent_memory, static_memory] (0, 0) =
     Inr (Some (19 / 12, old_memory)) \<and>
   (19 / 12 :: real) \<le> 7 / 4"
proof -
  have h1: "score_hit 172800 [old_memory, recent_memory, static_memory] (0, 1) =
              Inr (Some (7 / 4, recent_memory))"
    by (simp add: score_hit_def py_index_def base_similarity_def recent_memory_def Let_def)
  have h2: "score_hit 172800 [old_memory, recent_memory, static_memory] (0, 0) =
              Inr (Some (19 / 12, old_memory))"
    by (simp add: score_hit_def py_index_def base_similarity_def old_memory_def Let_def)
  have t1: "m_timestamp recent_memory = Some 86400" by (simp add: recent_memory_def)
  have t2: "m_timestamp old_memory = Some 0" by (simp add: old_memory_def)
  have s: "base_similarity 0 = base_similarity 0" by simp
  have imp: "m_importance recent_memory = m_importance old_memory"
    by (simp add: recent_memory_def old_memory_def)
  have a1: "(0::real) \<le> (172800 - 86400) / 86400" by simp
  have a12: "((172800::real) - 86400) / 86400 \<le> (172800 - 0) / 86400" by simp
  from decay_monotone[OF h1 h2 t1 t2 s imp a1 a12] h1 h2 show ?thesis by simp
qed

text \<open>Claim C1. An absent domain and a domain with an empty index give the empty list. On a
  domain that is present and non-empty (the index not longer than the metadata list, no
  record stamped after the clock reading, \<open>top_k\<close> not negative) the call returns the
  records, without their scores, of the first \<open>top_k\<close> entries of the list \<open>scored\<close>:
  the candidates (the at most 10 nearest stored vectors, each with its raw distance
  \<open>d\<close>) whose base similarity \<open>1 / (1 + d)\<close> is not below 0.40, each scored \<open>s\<close> when
  static and \<open>s + importance * 0.5 + s * (1 / (1 + age_in_days))\<close> when dynamic, in
  descending order of that score. So every returned record is a candidate of base
  similarity at least 0.40.\<close>

theorem search_with_decay_scores_filters_sorts:
  "(databases s domain_name = None \<longrightarrow>
      search_with_decay encode now s domain_name query top_k = Inr []) \<and>
   (\<forall>db. databases s domain_name = Some db \<and> db_index db = [] \<longrightarrow>
      search_with_decay encode now s domain_name query top_k = Inr []) \<and>
   (\<forall>db. databases s domain_name = Some db \<and> db_index db \<noteq> [] \<and>
         length (db_index db) \<le> length (db_data db) \<and>
         (\<forall>m\<in>set (db_data db). \<forall>ts. m_timestamp m = Some ts \<longrightarrow> ts \<le> now) \<and>
         0 \<le> top_k \<longrightarrow>
      (let hits = flat_l2_search (db_index db) (encode query) (min 10 (length (db_index db)));
           scored = sort_desc fst (spec_scored now (db_data db) hits)
       in search_with_decay encode now s domain_name query top_k =
            Inr (map snd (take (nat top_k) scored)) \<and>
          sorted_wrt (\<lambda>a b. b \<le> a) (map fst scored) \<and>
          mset scored = mset (spec_scored now (db_data db) hits) \<and>
          (\<forall>(d, i)\<in>set hits. 0 \<le> i \<and> nat i < length (db_index db) \<and>
              d = l2_sqr (encode query) (db_index db ! nat i)) \<and>
          (\<forall>r\<in>set (map snd (take (nat top_k) scored)).
              \<exists>(d, i)\<in>set hits. r = db_data db ! nat i \<and> 0.40 \<le> 1 / (1 + d))))"
proof (intro conjI allI impI)
  assume "databases s domain_name = None"
  then show "search_with_decay encode now s domain_name query top_k = Inr []"
    by (simp add: search_with_decay_def)
next
  fix db assume "databases s domain_name = Some db \<and> db_index db = []"
  then show "search_with_decay encode now s domain_name query top_k = Inr []"
    by (simp add: search_with_decay_def)
next
  fix db
  assume a: "databases s domain_name = Some db \<and> db_index db \<noteq> [] \<and>
         length (db_index db) \<le> length (db_data db) \<and>
         (\<forall>m\<in>set (db_data db). \<forall>ts. m_timestamp m = Some ts \<longrightarrow> ts \<le> now) \<and>
         0 \<le> top_k"
  define hits where "hits = flat_l2_search (db_index db) (encode query) (min 10 (length (db_index db)))"
  define scored where "scored = sort_desc fst (spec_scored now (db_data db) hits)"
  have hv: "\<forall>(d, i)\<in>set hits. 0 \<le> i \<and> nat i < length (db_index db) \<and>
              d = l2_sqr (encode query) (db_index db ! nat i)"
    unfolding hits_def using set_flat_l2_search by blast
  then have hv': "\<forall>(d, i)\<in>set hits. 0 \<le> i \<and> nat i < length (db_data db)"
    using a by fastforce
  from a have ts: "\<forall>m\<in>set (db_data db). \<forall>ts. m_timestamp m = Some ts \<longrightarrow> ts \<le> now"
    by blast
  have sh: "score_hits now (db_data db) hits [] = Inr (spec_scored now (db_data db) hits)"
    using score_hits_spec[OF hv' ts, of "[]"] by simp
  have res: "search_with_decay encode now s domain_name query top_k =
            Inr (map snd (take (nat top_k) scored))"
    using a by (simp add: search_with_decay_def Let_def sh[unfolded hits_def] scored_def hits_def
        slice_to_def)
  have floor: "\<forall>r\<in>set (map snd (take (nat top_k) scored)).
              \<exists>(d, i)\<in>set hits. r = db_data db ! nat i \<and> 0.40 \<le> 1 / (1 + d)"
  proof
    fix r assume "r \<in> set (map snd (take (nat top_k) scored))"
    then obtain sc where "(sc, r) \<in> set (take (nat top_k) scored)" by auto
    then have "(sc, r) \<in> set scored" by (rule in_set_takeD)
    then have "(sc, r) \<in> set (spec_scored now (db_data db) hits)"
      by (simp add: scored_def set_sort_desc)
    then show "\<exists>(d, i)\<in>set hits. r = db_data db ! nat i \<and> 0.40 \<le> 1 / (1 + d)"
      by (auto simp: spec_scored_def)
  qed
  show "let hits = flat_l2_search (db_index db) (encode query) (min 10 (length (db_index db)));
           scored = sort_desc fst (spec_scored now (db_data db) hits)
       in search_with_decay encode now s domain_name query top_k =
            Inr (map snd (take (nat top_k) scored)) \<and>
          sorted_wrt (\<lambda>a b. b \<le> a) (map fst scored) \<and>
          mset scored = mset (spec_scored now (db_data db) hits) \<and>
          (\<forall>(d, i)\<in>set hits. 0 \<le> i \<and> nat i < length (db_index db) \<and>
              d = l2_sqr (encode query) (db_index db ! nat i)) \<and>
          (\<forall>r\<in>set (map snd (take (nat top_k) scored)).
              \<exists>(d, i)\<in>set hits. r = db_data db ! nat i \<and> 0.40 \<le> 1 / (1 + d))"
    unfolding Let_def hits_def[symmetric] scored_def[symmetric]
    using res floor hv sorted_sort_desc[of fst "spec_scored now (db_data db) hits"]
      mset_sort_desc[of fst "spec_scored now (db_data db) hits"]
    unfolding scored_def[symmetric] by blast
qed


text \<open>Claim C1 on the store of three records: the far static record is dropped by the
  floor, the one-day-old record outranks the two-day-old one, an unknown domain gives
  the empty list.\<close>

theorem search_with_decay_witness:
  "search_with_decay example_encode 172800 decay_manager ''preferences'' ''mode'' 1 =
     Inr [recent_memory] \<and>
   search_with_decay example_encode 172800 decay_manager ''preferences'' ''mode'' 3 =
     Inr [recent_memory, old_memory] \<and>
   search_with_decay example_encode 172800 decay_manager ''hobbies'' ''mode'' 3 = Inr []"
proof -
  let ?db = "\<lparr>db_index = [[4], [4], [9]], db_data = [old_memory, recent_memory, static_memory]\<rparr>"
  have db: "databases decay_manager ''preferences'' = Some ?db"
    by (simp add: decay_manager_def)
  have none: "databases decay_manager ''hobbies'' = None"
    by (simp add: decay_manager_def)
  have ts: "\<forall>m\<in>set (db_data ?db). \<forall>ts. m_timestamp m = Some ts \<longrightarrow> ts \<le> 172800"
    by (simp add: old_memory_def recent_memory_def static_memory_def)
  have hits: "flat_l2_search (db_index ?db) (example_encode ''mode'') (min 10 (length (db_index ?db))) =
                [(0, 0), (0, 1), (25, 2)]"
    by (simp add: flat_l2_search_def l2_sqr_def example_encode_def upt_rec)
  have scored: "sort_desc fst (spec_scored 172800 (db_data ?db) [(0, 0), (0, 1), (25, 2)]) =
                 [(7 / 4, recent_memory), (19 / 12, old_memory)]"
    by (simp add: sort_desc_def spec_scored_def spec_final_score_def old_memory_def recent_memory_def)
  note t = search_with_decay_scores_filters_sorts
             [of decay_manager "''preferences''" example_encode 172800 "''mode''"]
  have "search_with_decay example_encode 172800 decay_manager ''preferences'' ''mode'' 1 =
          Inr [recent_memory]"
    using t[of 1, THEN conjunct2, THEN conjunct2, rule_format, of ?db] db ts
    unfolding Let_def hits scored by simp
  moreover have "search_with_decay example_encode 172800 decay_manager ''preferences'' ''mode'' 3 =
          Inr [recent_memory, old_memory]"
    using t[of 3, THEN conjunct2, THEN conjunct2, rule_format, of ?db] db ts
    unfolding Let_def hits scored by simp
  moreover have "search_with_decay example_encode 172800 decay_manager ''hobbies'' ''mode'' 3 = Inr []"
    using search_with_decay_scores_filters_sorts
            [of decay_manager "''hobbies''" example_encode 172800 "''mode''" 3, THEN conjunct1] none
    by simp
  ultimately show ?thesis by simp
qed

subsection \<open>search\_quote: where each returned candidate comes from\<close>

lemma set_flat_ip_search:
  assumes "(c, i) \<in> set (flat_ip_search ix q k)"
  shows "0 \<le> i \<and> nat i < length ix \<and> c = dot q (ix ! nat i)"
proof -
  from assms have "(c, i) \<in> set (zip (map (dot q) ix) (map int [0..<length ix]))"
    unfolding flat_ip_search_def by (auto dest: in_set_takeD simp: set_sort_desc)
  then have "\<exists>n. map (dot q) ix ! n = c \<and> map int [0..<length ix] ! n = i \<and> n < length ix"
    unfolding in_set_zip by auto
  then show ?thesis by auto
qed

lemma quote_hit_Some:
  assumes "quote_hit qm q used (c, idx) = Inr (Some r)"
  shows "idx \<noteq> -1 \<and> idx \<notin> set used \<and>
         (\<exists>j. py_index (length (quotes qm)) idx = Inr j \<and>
            r = \<lparr>r_index = idx,
                 r_semantic_sim = round3 (semantic_signal c),
                 r_emotion_sim = round3 (emotion_signal qm q (quotes qm ! j)),
                 r_type_weight = 1.0,
                 r_composite = round3 (composite_score (semantic_signal c)
                                          (emotion_signal qm q (quotes qm ! j))),
                 r_metadata = quotes qm ! j\<rparr>)"
  using assms by (auto simp: quote_hit_def Let_def split: if_splits sum.splits)

lemma quote_hits_from_hits:
  assumes "quote_hits qm q used hits acc = Inr rs"
  shows "\<exists>new. rs = acc @ new \<and>
           (\<forall>r\<in>set new. \<exists>(c, idx)\<in>set hits. quote_hit qm q used (c, idx) = Inr (Some r))"
  using assms
proof (induction hits arbitrary: acc)
  case Nil
  then show ?case by simp
next
  case (Cons h hits)
  obtain c idx where h: "h = (c, idx)" by (cases h)
  show ?case
  proof (cases "quote_hit qm q used h")
    case (Inl e)
    with Cons.prems show ?thesis by simp
  next
    case (Inr res)
    show ?thesis
    proof (cases res)
      case None
      with Inr Cons.prems have "quote_hits qm q used hits acc = Inr rs" by simp
      from Cons.IH[OF this] show ?thesis by auto
    next
      case (Some r)
      with Inr Cons.prems have "quote_hits qm q used hits (acc @ [r]) = Inr rs" by simp
      from Cons.IH[OF this] obtain new where
        new: "rs = (acc @ [r]) @ new"
             "\<forall>r\<in>set new. \<exists>(c, idx)\<in>set hits. quote_hit qm q used (c, idx) = Inr (Some r)"
        by blast
      have "rs = acc @ (r # new)" using new(1) by simp
      moreover have "\<forall>r'\<in>set (r # new). \<exists>(c, idx)\<in>set (h # hits).
                        quote_hit qm q used (c, idx) = Inr (Some r')"
        using new(2) Inr Some h by auto
      ultimately show ?thesis by blast
    qed
  qed
qed

lemma quote_hits_total:
  assumes "\<forall>(c, idx)\<in>set hits. 0 \<le> idx \<and> nat idx < length (quotes qm)"
  shows "\<exists>rs. quote_hits qm q used hits acc = Inr rs"
  using assms
proof (induction hits arbitrary: acc)
  case Nil
  then show ?case by simp
next
  case (Cons h hits)
  obtain c idx where h: "h = (c, idx)" by (cases h)
  with Cons.prems have "0 \<le> idx" "nat idx < length (quotes qm)" by auto
  then have "py_index (length (quotes qm)) idx = Inr (nat idx)" by (simp add: py_index_def)
  then have "\<exists>res. quote_hit qm q used h = Inr res"
    by (simp add: quote_hit_def h Let_def)
  then obtain res where res: "quote_hit qm q used h = Inr res" by blast
  from Cons.prems have rest: "\<forall>(c, idx)\<in>set hits. 0 \<le> idx \<and> nat idx < length (quotes qm)" by simp
  show ?case using res Cons.IH[OF rest] by (cases res) auto
qed


lemma quote_hit_formula:
  assumes "quote_hit qm q used (c, idx) = Inr (Some r)" and "0 \<le> idx"
  shows "r_index r = idx \<and> idx \<notin> set used \<and> nat idx < length (quotes qm) \<and>
         r_metadata r = quotes qm ! nat idx \<and>
         r_semantic_sim r = round3 (max 0 c) \<and>
         r_emotion_sim r =
           round3 (case emotion_vecs qm (emotion_label (quotes qm ! nat idx)) of
                     None \<Rightarrow> 0 | Some ev \<Rightarrow> max 0 (dot q ev)) \<and>
         r_composite r =
           round3 (0.70 * max 0 c +
                   0.30 * (case emotion_vecs qm (emotion_label (quotes qm ! nat idx)) of
                             None \<Rightarrow> 0 | Some ev \<Rightarrow> max 0 (dot q ev)))"
proof -
  from quote_hit_Some[OF assms(1)] obtain j where
    j: "idx \<notin> set used" "py_index (length (quotes qm)) idx = Inr j"
       "r = \<lparr>r_index = idx,
                 r_semantic_sim = round3 (semantic_signal c),
                 r_emotion_sim = round3 (emotion_signal qm q (quotes qm ! j)),
                 r_type_weight = 1.0,
                 r_composite = round3 (composite_score (semantic_signal c)
                                          (emotion_signal qm q (quotes qm ! j))),
                 r_metadata = quotes qm ! j\<rparr>" by blast
  from j(2) assms(2) have jj: "j = nat idx" "nat idx < length (quotes qm)"
    by (auto simp: py_index_def split: if_splits)
  have emo: "emotion_signal qm q (quotes qm ! j) =
               (case emotion_vecs qm (emotion_label (quotes qm ! nat idx)) of
                  None \<Rightarrow> 0 | Some ev \<Rightarrow> max 0 (dot q ev))"
    by (simp add: emotion_signal_def emotion_sim_def jj split: option.splits)
  show ?thesis
    using j(1) jj(2) unfolding j(3) emo
    by (simp add: jj composite_score_def semantic_signal_def W_SEMANTIC_def W_EMOTION_def)
qed

lemma search_quote_results:
  assumes ix: "q_index qm = Some ix" and len: "length ix \<le> length (quotes qm)"
  shows "\<exists>rs. search_quote encode qm query top_k used = Inr rs \<and>
           (\<forall>r\<in>set rs. 0 \<le> r_index r \<and> nat (r_index r) < length ix \<and>
              r_index r \<notin> set used \<and>
              r_metadata r = quotes qm ! nat (r_index r) \<and>
              r_composite r =
                round3 (0.70 * max 0 (dot (normalize_L2 (encode query)) (ix ! nat (r_index r))) +
                        0.30 * (case emotion_vecs qm (emotion_label (r_metadata r)) of
                                  None \<Rightarrow> 0
                                | Some ev \<Rightarrow> max 0 (dot (normalize_L2 (encode query)) ev)))) \<and>
           sorted_wrt (\<lambda>a b. r_composite b \<le> r_composite a) rs \<and>
           int (length rs) \<le> max 0 top_k"
proof -
  let ?q = "normalize_L2 (encode query)"
  let ?hits = "flat_ip_search ix ?q (min (top_k * 4) (int (length ix)))"
  have hv: "\<forall>(c, idx)\<in>set ?hits. 0 \<le> idx \<and> nat idx < length ix \<and> c = dot ?q (ix ! nat idx)"
    using set_flat_ip_search by blast
  then have "\<forall>(c, idx)\<in>set ?hits. 0 \<le> idx \<and> nat idx < length (quotes qm)"
    using len by fastforce
  from quote_hits_total[OF this, of ?q used "[]"] obtain results where
    results: "quote_hits qm ?q used ?hits [] = Inr results" by blast
  let ?sorted = "sort_desc r_composite results"
  let ?rs = "take (nat (min top_k (int (length ?sorted)))) ?sorted"
  have res: "search_quote encode qm query top_k used = Inr ?rs"
    by (simp add: search_quote_def ix Let_def results)
  have each: "\<forall>r\<in>set ?rs. 0 \<le> r_index r \<and> nat (r_index r) < length ix \<and>
              r_index r \<notin> set used \<and>
              r_metadata r = quotes qm ! nat (r_index r) \<and>
              r_composite r =
                round3 (0.70 * max 0 (dot ?q (ix ! nat (r_index r))) +
                        0.30 * (case emotion_vecs qm (emotion_label (r_metadata r)) of
                                  None \<Rightarrow> 0 | Some ev \<Rightarrow> max 0 (dot ?q ev)))"
  proof
    fix r assume "r \<in> set ?rs"
    then have "r \<in> set results" by (auto dest: in_set_takeD simp: set_sort_desc)
    with quote_hits_from_hits[OF results] obtain c idx where
      h: "(c, idx) \<in> set ?hits" "quote_hit qm ?q used (c, idx) = Inr (Some r)" by auto
    from hv h(1) have v: "0 \<le> idx" "nat idx < length ix" "c = dot ?q (ix ! nat idx)" by auto
    from quote_hit_formula[OF h(2) v(1)] v
    show "0 \<le> r_index r \<and> nat (r_index r) < length ix \<and>
              r_index r \<notin> set used \<and>
              r_metadata r = quotes qm ! nat (r_index r) \<and>
              r_composite r =
                round3 (0.70 * max 0 (dot ?q (ix ! nat (r_index r))) +
                        0.30 * (case emotion_vecs qm (emotion_label (r_metadata r)) of
                                  None \<Rightarrow> 0 | Some ev \<Rightarrow> max 0 (dot ?q ev)))"
      by simp
  qed
  have "sorted_wrt (\<lambda>a b. r_composite b \<le> r_composite a) ?sorted"
    using sorted_sort_desc[of r_composite results] by (simp add: sorted_wrt_map)
  then have srt: "sorted_wrt (\<lambda>a b. r_composite b \<le> r_composite a) ?rs"
    by (rule sorted_wrt_take)
  have "int (length ?rs) \<le> max 0 top_k" by simp
  with res each srt show ?thesis by blast
qed

end
